theory Spec2Isabelle
  imports Complex_Main "HOL-Library.Sublist"
begin

section \<open>JavaScript strings and arrays\<close>

text \<open>
  A JavaScript string is a sequence of UTF-16 code units. The model reads a
  \<^typ>\<open>char\<close> as one code unit in the range U+0000 .. U+00FF (Latin-1), so
  \<^const>\<open>length\<close> is the JavaScript \<^verbatim>\<open>length\<close> and the accented letters of
  the French word lists are single characters. Code units beyond U+00FF are
  outside the modelled input type.
\<close>

definition isAsciiUpper :: "char \<Rightarrow> bool" where
  \<comment> \<open>the regular expression class \<^verbatim>\<open>[A-Z]\<close>\<close>
  "isAsciiUpper c = (let n = (of_char c :: nat) in 65 \<le> n \<and> n \<le> 90)"

definition isAsciiLower :: "char \<Rightarrow> bool" where
  "isAsciiLower c = (let n = (of_char c :: nat) in 97 \<le> n \<and> n \<le> 122)"

definition isDigit :: "char \<Rightarrow> bool" where
  \<comment> \<open>the class \<^verbatim>\<open>\d\<close>\<close>
  "isDigit c = (let n = (of_char c :: nat) in 48 \<le> n \<and> n \<le> 57)"

definition isWordChar :: "char \<Rightarrow> bool" where
  \<comment> \<open>the class \<^verbatim>\<open>\w\<close>, that is \<^verbatim>\<open>[A-Za-z0-9_]\<close>\<close>
  "isWordChar c = (isAsciiUpper c \<or> isAsciiLower c \<or> isDigit c \<or> c = CHR ''_'')"

definition isSpace :: "char \<Rightarrow> bool" where
  \<comment> \<open>the class \<^verbatim>\<open>\s\<close> and the white space of \<^verbatim>\<open>trim\<close>: TAB, LF, VT, FF, CR,
      SPACE and NBSP are its members below U+0100\<close>
  "isSpace c = (let n = (of_char c :: nat) in (9 \<le> n \<and> n \<le> 13) \<or> n = 32 \<or> n = 160)"

definition toLowerChar :: "char \<Rightarrow> char" where
  \<comment> \<open>A-Z and the Latin-1 capitals U+00C0 .. U+00DE (without the multiplication sign
      U+00D7) move up by 32; every other code unit below U+0100 is unchanged\<close>
  "toLowerChar c =
     (let n = (of_char c :: nat)
      in if (65 \<le> n \<and> n \<le> 90) \<or> (192 \<le> n \<and> n \<le> 222 \<and> n \<noteq> 215)
         then char_of (n + 32) else c)"

definition toLowerCase :: "string \<Rightarrow> string" where
  "toLowerCase s = map toLowerChar s"

definition trim :: "string \<Rightarrow> string" where
  "trim s = rev (dropWhile isSpace (rev (dropWhile isSpace s)))"

definition startsWith :: "string \<Rightarrow> string \<Rightarrow> bool" where
  "startsWith s p = (take (length p) s = p)"

definition includesStr :: "string \<Rightarrow> string \<Rightarrow> bool" where
  \<comment> \<open>\<^verbatim>\<open>s.includes(t)\<close>: \<open>t\<close> occurs in \<open>s\<close> as a contiguous substring\<close>
  "includesStr s t = list_ex (\<lambda>u. startsWith u t) (suffixes s)"

text \<open>
  \<^verbatim>\<open>s.split(/\s+/)\<close>: the fields between maximal runs of white space. A run at the
  start or at the end of the string leaves an empty field there, and the empty
  string splits into one empty field.
\<close>

function splitWs :: "string \<Rightarrow> string list" where
  "splitWs [] = [[]]"
| "splitWs (c # cs) =
     (if isSpace c then [] # splitWs (dropWhile isSpace cs)
      else (case splitWs cs of [] \<Rightarrow> [[c]] | w # ws \<Rightarrow> (c # w) # ws))"
  by pat_completeness auto
termination
  by (relation "measure length") (auto simp: length_dropWhile_le less_Suc_eq_le)

fun joinWith :: "string \<Rightarrow> string list \<Rightarrow> string" where
  \<comment> \<open>\<^verbatim>\<open>xs.join(sep)\<close>\<close>
  "joinWith sep [] = []"
| "joinWith sep [x] = x"
| "joinWith sep (x # y # ys) = x @ sep @ joinWith sep (y # ys)"

definition slice0 :: "'a list \<Rightarrow> int \<Rightarrow> 'a list" where
  \<comment> \<open>\<^verbatim>\<open>xs.slice(0, e)\<close> for an integer \<open>e\<close>: a negative end counts from the back\<close>
  "slice0 xs e = (if e < 0 then take (nat (int (length xs) + e)) xs else take (nat e) xs)"

section \<open>Topic extraction (utils/stopwords)\<close>

definition FRENCH_STOP_WORDS :: "string list" where
  "FRENCH_STOP_WORDS = [
    ''le'', ''la'', ''les'', ''un'', ''une'', ''des'', ''du'', ''de'', ''da'', ''au'',
    ''aux'', [CHR 0xE0], ''avec'', ''dans'', ''pour'', ''sur'', ''sous'', ''par'',
    ''entre'', ''vers'', ''chez'', ''sans'', ''contre'', ''depuis'', ''pendant'',
    ''avant'', ''apr'' @ [CHR 0xE8] @ ''s'', ''devant'', ''derri'' @ [CHR 0xE8] @ ''re'',
    ''et'', ''ou'', ''mais'', ''donc'', ''or'', ''ni'', ''car'', ''que'', ''qui'',
    ''quoi'', ''dont'', ''o'' @ [CHR 0xF9], ''quand'', ''comment'', ''pourquoi'', ''si'',
    ''comme'', ''lorsque'', ''puisque'', ''je'', ''tu'', ''il'', ''elle'', ''nous'',
    ''vous'', ''ils'', ''elles'', ''me'', ''te'', ''se'', ''lui'', ''leur'', ''ce'',
    ''cet'', ''cette'', ''ces'', ''mon'', ''ma'', ''mes'', ''ton'', ''ta'', ''tes'',
    ''son'', ''sa'', ''ses'', ''notre'', ''nos'', ''votre'', ''vos'', ''leur'', ''leurs'',
    [CHR 0xEA] @ ''tre'', ''avoir'', ''faire'', ''aller'', ''venir'', ''voir'', ''savoir'',
    ''pouvoir'', ''vouloir'', ''devoir'', ''falloir'', ''est'', ''sont'',
    [CHR 0xE9] @ ''tait'', [CHR 0xE9] @ ''taient'', ''sera'', ''seront'', ''a'', ''ont'',
    ''avait'', ''avaient'', ''aura'', ''auront'', ''fait'', ''font'', ''faisait'',
    ''faisaient'', ''fera'', ''feront'', ''va'', ''vont'', ''allait'', ''allaient'',
    ''ira'', ''iront'', ''tr'' @ [CHR 0xE8] @ ''s'', ''plus'', ''moins'', ''aussi'',
    ''encore'', ''d'' @ [CHR 0xE9] @ ''j'' @ [CHR 0xE0], ''toujours'', ''jamais'',
    ''souvent'', ''parfois'', ''bien'', ''mal'', ''mieux'', ''beaucoup'', ''peu'',
    ''assez'', ''trop'', ''tout'', ''tous'', ''toute'', ''toutes'', ''rien'', ''quelque'',
    ''quelques'', ''chaque'', ''plusieurs'', ''certains'', ''certaines'', ''alors'',
    ''ainsi'', ''cependant'', ''n'' @ [CHR 0xE9] @ ''anmoins'', ''toutefois'',
    ''pourtant'', ''en effet'', ''par exemple'', ''notamment'',
    ''c'' @ [CHR 0x27] @ ''est-'' @ [CHR 0xE0] @ ''-dire'', ''autrement dit'', ''oui'',
    ''non'', ''peut-'' @ [CHR 0xEA] @ ''tre'', ''voici'', ''voil'' @ [CHR 0xE0], ''ici'',
    ''l'' @ [CHR 0xE0], ''maintenant'', ''aujourd'' @ [CHR 0x27] @ ''hui'', ''hier'',
    ''demain'', ''ann'' @ [CHR 0xE9] @ ''e'', ''mois'', ''jour'', ''heure'', ''temps'',
    ''fois'', ''chose'', ''fa'' @ [CHR 0xE7] @ ''on'', ''mani'' @ [CHR 0xE8] @ ''re'',
    ''cas'', ''exemple'']"

definition ENGLISH_STOP_WORDS :: "string list" where
  "ENGLISH_STOP_WORDS = [
    ''the'', ''a'', ''an'', ''and'', ''or'', ''but'', ''in'', ''on'', ''at'', ''to'',
    ''for'', ''of'', ''with'', ''by'', ''from'', ''up'', ''about'', ''into'', ''through'',
    ''during'', ''before'', ''after'', ''above'', ''below'', ''between'', ''among'',
    ''is'', ''are'', ''was'', ''were'', ''be'', ''been'', ''being'', ''have'', ''has'',
    ''had'', ''do'', ''does'', ''did'', ''will'', ''would'', ''could'', ''should'',
    ''may'', ''might'', ''must'', ''can'', ''this'', ''that'', ''these'', ''those'', ''i'',
    ''you'', ''he'', ''she'', ''it'', ''we'', ''they'', ''me'', ''him'', ''her'', ''us'',
    ''them'', ''my'', ''your'', ''his'', ''her'', ''its'', ''our'', ''their'', ''what'',
    ''which'', ''who'', ''when'', ''where'', ''why'', ''how'', ''all'', ''any'', ''both'',
    ''each'', ''few'', ''more'', ''most'', ''other'', ''some'', ''such'', ''no'', ''nor'',
    ''not'', ''only'', ''own'', ''same'', ''so'', ''than'', ''too'', ''very'', ''just'',
    ''now'']"

datatype Language = fr | en | both

record TopicExtractionOptions =
  language :: Language
  minWordLength :: int
  maxTopics :: int
  customStopWords :: "string list"
  preserveCapitalized :: bool

definition defaultTopicOptions :: TopicExtractionOptions where
  \<comment> \<open>the defaults of the destructuring in \<^verbatim>\<open>extractTopics\<close>\<close>
  "defaultTopicOptions =
     \<lparr>language = both, minWordLength = 2, maxTopics = 10, customStopWords = [],
      preserveCapitalized = True\<rparr>"

record TopicStats =
  originalWordCount :: nat
  finalWordCount :: nat
  stopWordsRemoved :: nat

record ExtractedTopics =
  topics :: "string list"
  cleanedQuery :: string
  removedWords :: "string list"
  stats :: TopicStats

definition keptChar :: "char \<Rightarrow> bool" where
  \<comment> \<open>a character outside the class \<^verbatim>\<open>[^\w\s\-']\<close>\<close>
  "keptChar c = (isWordChar c \<or> isSpace c \<or> c = CHR ''-'' \<or> c = CHR 0x27)"

definition normalizeSpaced :: "string \<Rightarrow> string" where
  \<comment> \<open>\<^verbatim>\<open>s.toLowerCase().replace(/[^\w\s\-']/g, ' ')\<close>\<close>
  "normalizeSpaced s = map (\<lambda>c. if keptChar c then c else CHR '' '') (toLowerCase s)"

definition normalizeStripped :: "string \<Rightarrow> string" where
  \<comment> \<open>\<^verbatim>\<open>w.toLowerCase().replace(/[^\w\s\-']/g, '')\<close>\<close>
  "normalizeStripped w = filter keptChar (toLowerCase w)"

definition originalWords :: "string \<Rightarrow> string list" where
  "originalWords query = filter (\<lambda>word. length word > 0) (splitWs (normalizeSpaced query))"

definition stopWords :: "TopicExtractionOptions \<Rightarrow> string list" where
  \<comment> \<open>the members of the set \<^verbatim>\<open>stopWords\<close>; \<^verbatim>\<open>has\<close> is list membership\<close>
  "stopWords opts =
     (if language opts = fr \<or> language opts = both then FRENCH_STOP_WORDS else [])
     @ (if language opts = en \<or> language opts = both then ENGLISH_STOP_WORDS else [])
     @ map toLowerCase (customStopWords opts)"

definition findOriginalWord :: "string \<Rightarrow> string \<Rightarrow> string option" where
  "findOriginalWord query cleanWord =
     find (\<lambda>w. normalizeStripped w = cleanWord) (splitWs query)"

definition startsUpper :: "string \<Rightarrow> bool" where
  \<comment> \<open>\<^verbatim>\<open>/^[A-Z]/.test(w)\<close>\<close>
  "startsUpper w = (case w of [] \<Rightarrow> False | c # _ \<Rightarrow> isAsciiUpper c)"

text \<open>
  The body of the \<^verbatim>\<open>forEach\<close> over the tokens, with the two arrays it pushes to
  (\<^verbatim>\<open>removedWords\<close>, \<^verbatim>\<open>topics\<close>) passed through.
\<close>

definition processWord ::
  "string \<Rightarrow> TopicExtractionOptions \<Rightarrow> string \<Rightarrow> string list \<times> string list
     \<Rightarrow> string list \<times> string list" where
  "processWord query opts word acc =
     (let cleanWord = trim word; removed = fst acc; tps = snd acc
      in if int (length cleanWord) < minWordLength opts then (removed @ [cleanWord], tps)
         else if cleanWord \<in> set (stopWords opts) then (removed @ [cleanWord], tps)
         else (case findOriginalWord query cleanWord of
                 Some originalWord \<Rightarrow>
                   if preserveCapitalized opts \<and> originalWord \<noteq> [] \<and> startsUpper originalWord
                   then (removed, tps @ [originalWord])
                   else (removed, tps @ [cleanWord])
               | None \<Rightarrow> (removed, tps @ [cleanWord])))"

definition extractTopics :: "string \<Rightarrow> TopicExtractionOptions \<Rightarrow> ExtractedTopics" where
  "extractTopics query opts =
     (let ws = originalWords query;
          acc = foldl (\<lambda>acc word. processWord query opts word acc) ([], []) ws;
          finalTopics = slice0 (snd acc) (maxTopics opts)
      in \<lparr>topics = finalTopics,
          cleanedQuery = joinWith '' '' finalTopics,
          removedWords = fst acc,
          stats = \<lparr>originalWordCount = length ws,
                   finalWordCount = length finalTopics,
                   stopWordsRemoved = length (fst acc)\<rparr>\<rparr>)"

text \<open>
  \<^verbatim>\<open>analyzeTopicRelevance\<close>. The score is a sum of multiples of 3, 5 and 10 bounded by
  120, which the floating-point arithmetic of the source computes exactly (the
  products \<open>(n / 10) * 30\<close> for \<open>n < 10\<close> round to \<open>3 * n\<close>), so it is a rational here.
\<close>

datatype Category = high | medium | low

record RelevanceEntry =
  topic :: string
  relevanceScore :: rat
  category :: Category

fun hasAcronym :: "string \<Rightarrow> bool" where
  \<comment> \<open>\<^verbatim>\<open>/[A-Z]{2,}/.test(t)\<close>: two capitals in a row somewhere\<close>
  "hasAcronym (a # b # cs) = ((isAsciiUpper a \<and> isAsciiUpper b) \<or> hasAcronym (b # cs))"
| "hasAcronym _ = False"

definition rawScore :: "string \<Rightarrow> rat" where
  \<comment> \<open>the variable \<^verbatim>\<open>score\<close> at the end of the callback of \<^verbatim>\<open>map\<close>\<close>
  "rawScore t =
     (let score = 0;
          score = score + min (of_nat (length t) / 10) 1 * 30;
          score = (if startsUpper t then score + 25 else score);
          score = (if list_ex isDigit t then score + 20 else score);
          score = (if CHR ''-'' \<in> set t \<or> CHR ''_'' \<in> set t then score + 15 else score);
          score = (if hasAcronym t then score + 20 else score);
          score = score + 10
      in score)"

definition scoreTopic :: "string \<Rightarrow> RelevanceEntry" where
  "scoreTopic t =
     (let score = rawScore t;
          cat = (if score \<ge> 70 then high else if score \<ge> 40 then medium else low)
      in \<lparr>topic = t, relevanceScore = min score 100, category = cat\<rparr>)"

text \<open>
  \<^verbatim>\<open>Array.prototype.sort\<close> with a comparator is a stable sort: \<open>a\<close> stays before \<open>b\<close>
  unless \<open>cmp a b > 0\<close>. It is modelled by insertion from the right.
\<close>

fun insertBy :: "('a \<Rightarrow> 'a \<Rightarrow> rat) \<Rightarrow> 'a \<Rightarrow> 'a list \<Rightarrow> 'a list" where
  "insertBy cmp x [] = [x]"
| "insertBy cmp x (y # ys) = (if cmp x y \<le> 0 then x # y # ys else y # insertBy cmp x ys)"

definition sortBy :: "('a \<Rightarrow> 'a \<Rightarrow> rat) \<Rightarrow> 'a list \<Rightarrow> 'a list" where
  "sortBy cmp xs = foldr (insertBy cmp) xs []"

definition analyzeTopicRelevance :: "string list \<Rightarrow> RelevanceEntry list" where
  "analyzeTopicRelevance ts =
     sortBy (\<lambda>a b. relevanceScore b - relevanceScore a) (map scoreTopic ts)"

section \<open>Web search service (class WebSearch)\<close>

subsection \<open>Data\<close>

datatype js_error = Error (message: string) | ThrownUndefined

definition rethrow :: "string \<Rightarrow> js_error \<Rightarrow> js_error" where
  \<comment> \<open>\<^verbatim>\<open>catch (error) { throw new Error(pre + error.message) }\<close>; reading a property
      of \<^verbatim>\<open>undefined\<close> raises a TypeError instead\<close>
  "rethrow pre e =
     (case e of Error m \<Rightarrow> Error (pre @ m)
      | ThrownUndefined \<Rightarrow>
          Error (''Cannot read properties of undefined (reading '' @ [CHR 0x27] @ ''message''
                 @ [CHR 0x27] @ '')''))"

record PageMetadata =
  description :: "string option"
  pageKeywords :: "string option"
  author :: "string option"
  publishDate :: "string option"
  pageLanguage :: "string option"

record ExtractedContent =
  url :: "string option"
  title :: string
  content :: string
  headings :: "string list"
  links :: "string list"
  metadata :: PageMetadata
  extractedAt :: int
  success :: bool
  error :: "string option"

record SearchResult =
  sr_title :: string
  sr_url :: string
  snippet :: string
  rank :: nat

record WebSearchConfig =
  maxResults :: int
  timeout :: int
  retryAttempts :: int
  retryDelay :: int
  minContentLength :: int
  excludeDomains :: "string list"
  includeDomains :: "string list"

definition defaultConfig :: WebSearchConfig where
  "defaultConfig =
     \<lparr>maxResults = 10, timeout = 15000, retryAttempts = 3, retryDelay = 1000,
      minContentLength = 200, excludeDomains = [], includeDomains = []\<rparr>"

datatype SearchEngine = google | bing | duckduckgo

record SearchPlanStep =
  query :: string
  reason :: string
  optional :: "bool option"
  limit :: "int option"

text \<open>
  What the class reaches outside itself, with the state of the outside world
  \<open>'w\<close> passed through: the search-engine lookup \<^verbatim>\<open>_performSearch\<close> and the
  fetch-and-parse of one page \<^verbatim>\<open>_extractSingleContent\<close> either return or throw;
  \<open>hostnameOf\<close> is \<^verbatim>\<open>new URL(u).hostname\<close>, \<open>None\<close> where the constructor throws;
  \<open>now\<close> is \<^verbatim>\<open>new Date()\<close>.
\<close>

record 'w WebSearch =
  config :: WebSearchConfig
  performSearch :: "'w \<Rightarrow> string \<Rightarrow> SearchEngine \<Rightarrow> (js_error + SearchResult list) \<times> 'w"
  extractSingleContent :: "'w \<Rightarrow> string \<Rightarrow> (js_error + ExtractedContent) \<times> 'w"
  hostnameOf :: "string \<Rightarrow> string option"
  now :: "'w \<Rightarrow> int"

subsection \<open>Validation and result filtering\<close>

definition validateQuery :: "string \<Rightarrow> js_error option" where
  "validateQuery q =
     (if q = [] \<or> length (trim q) = 0
      then Some (Error (''La requ'' @ [CHR 0xEA] @ ''te de recherche ne peut pas '' @ [CHR 0xEA]
                        @ ''tre vide''))
      else if length (trim q) < 2
      then Some (Error (''La requ'' @ [CHR 0xEA] @ ''te de recherche doit contenir au moins 2 caract''
                        @ [CHR 0xE8] @ ''res''))
      else None)"

definition validateUrls :: "'w WebSearch \<Rightarrow> string list \<Rightarrow> js_error option" where
  "validateUrls ws urls =
     (if length urls = 0
      then Some (Error (''Le tableau d'' @ [CHR 0x27] @ ''URLs ne peut pas '' @ [CHR 0xEA] @ ''tre vide''))
      else (case find (\<lambda>u. hostnameOf ws u = None) urls of
              Some u \<Rightarrow> Some (Error (''URL invalide: '' @ u))
            | None \<Rightarrow> None))"

definition extractDomain :: "'w WebSearch \<Rightarrow> string \<Rightarrow> string" where
  "extractDomain ws u = (case hostnameOf ws u of Some h \<Rightarrow> toLowerCase h | None \<Rightarrow> [])"

definition filterResults :: "'w WebSearch \<Rightarrow> SearchResult list \<Rightarrow> SearchResult list" where
  "filterResults ws rs =
     filter (\<lambda>r. let domain = extractDomain ws (sr_url r)
                 in if list_ex (\<lambda>excluded. includesStr domain excluded) (excludeDomains (config ws))
                    then False
                    else if length (includeDomains (config ws)) > 0
                    then list_ex (\<lambda>included. includesStr domain included) (includeDomains (config ws))
                    else True) rs"

subsection \<open>Search and extraction\<close>

definition getTopUrls ::
  "'w WebSearch \<Rightarrow> 'w \<Rightarrow> string \<Rightarrow> SearchEngine \<Rightarrow> int option \<Rightarrow> (js_error + string list) \<times> 'w" where
  "getTopUrls ws w q searchEngine lmt =
     (case validateQuery q of
        Some e \<Rightarrow> (Inl (rethrow ''Erreur lors de la recherche: '' e), w)
      | None \<Rightarrow>
          (case performSearch ws w q searchEngine of
             (Inl e, w') \<Rightarrow> (Inl (rethrow ''Erreur lors de la recherche: '' e), w')
           | (Inr searchResults, w') \<Rightarrow>
               (let filteredResults = filterResults ws searchResults;
                    effectiveLimit = (case lmt of Some l \<Rightarrow> l | None \<Rightarrow> maxResults (config ws))
                in (Inr (map sr_url (slice0 filteredResults effectiveLimit)), w'))))"

definition errorMessage :: "js_error \<Rightarrow> string" where
  \<comment> \<open>\<^verbatim>\<open>result.reason?.message || 'Erreur inconnue'\<close>\<close>
  "errorMessage e =
     (case e of Error m \<Rightarrow> if m = [] then ''Erreur inconnue'' else m
      | ThrownUndefined \<Rightarrow> ''Erreur inconnue'')"

definition failedContent :: "string \<Rightarrow> int \<Rightarrow> js_error \<Rightarrow> ExtractedContent" where
  "failedContent u t e =
     \<lparr>url = Some u, title = [], content = [], headings = [], links = [],
      metadata = \<lparr>description = None, pageKeywords = None, author = None, publishDate = None,
                  pageLanguage = None\<rparr>,
      extractedAt = t, success = False, error = Some (errorMessage e)\<rparr>"

text \<open>
  \<^verbatim>\<open>Promise.allSettled(urls.map(url => this._extractSingleContent(url)))\<close>: one outcome
  per URL, in the order of the URLs, whatever the other outcomes are. The
  extractions are modelled one after the other.
\<close>

fun settleAll ::
  "'w WebSearch \<Rightarrow> 'w \<Rightarrow> string list \<Rightarrow> (js_error + ExtractedContent) list \<times> 'w" where
  "settleAll ws w [] = ([], w)"
| "settleAll ws w (u # us) =
     (case extractSingleContent ws w u of
        (outcome, w') \<Rightarrow> (case settleAll ws w' us of (outcomes, w'') \<Rightarrow> (outcome # outcomes, w'')))"

definition settled :: "'w WebSearch \<Rightarrow> 'w \<Rightarrow> string \<Rightarrow> js_error + ExtractedContent \<Rightarrow> ExtractedContent" where
  "settled ws w u outcome =
     (case outcome of Inr v \<Rightarrow> v | Inl rsn \<Rightarrow> failedContent u (now ws w) rsn)"

definition extractContents ::
  "'w WebSearch \<Rightarrow> 'w \<Rightarrow> string list \<Rightarrow> (js_error + ExtractedContent list) \<times> 'w" where
  "extractContents ws w urls =
     (case validateUrls ws urls of
        Some e \<Rightarrow> (Inl (rethrow (''Erreur lors de l'' @ [CHR 0x27] @ ''extraction du contenu: '') e), w)
      | None \<Rightarrow>
          (case settleAll ws w urls of
             (outcomes, w') \<Rightarrow> (Inr (map2 (settled ws w') urls outcomes), w')))"

definition searchAndExtract ::
  "'w WebSearch \<Rightarrow> 'w \<Rightarrow> string \<Rightarrow> SearchEngine \<Rightarrow> int option
     \<Rightarrow> (js_error + ExtractedContent list) \<times> 'w" where
  "searchAndExtract ws w q searchEngine lmt =
     (case getTopUrls ws w q searchEngine lmt of
        (Inl e, w') \<Rightarrow> (Inl (rethrow ''Erreur lors de la recherche et extraction: '' e), w')
      | (Inr urls, w') \<Rightarrow>
          (case extractContents ws w' urls of
             (Inl e, w'') \<Rightarrow> (Inl (rethrow ''Erreur lors de la recherche et extraction: '' e), w'')
           | (Inr contents, w'') \<Rightarrow> (Inr contents, w'')))"

subsection \<open>Running a search plan\<close>

fun filterNewResults ::
  "ExtractedContent list \<Rightarrow> string set \<Rightarrow> ExtractedContent list \<times> string set" where
  "filterNewResults [] seenUrls = ([], seenUrls)"
| "filterNewResults (result # rest) seenUrls =
     (case map_option trim (url result) of
        None \<Rightarrow> filterNewResults rest seenUrls
      | Some u \<Rightarrow>
          if u = [] then filterNewResults rest seenUrls
          else if u \<in> seenUrls then filterNewResults rest seenUrls
          else (case filterNewResults rest (insert u seenUrls) of
                  (filtered, seen') \<Rightarrow> (result # filtered, seen')))"

record RunResult =
  results :: "ExtractedContent list"
  executedQueries :: "string list"
  stepResults :: "(SearchPlanStep \<times> ExtractedContent list) list"

type_synonym 'w backend =
  "'w \<Rightarrow> string \<Rightarrow> SearchEngine \<Rightarrow> int option \<Rightarrow> (js_error + ExtractedContent list) \<times> 'w"

text \<open>
  One pass of the loop body of \<^verbatim>\<open>_runSearchPlan\<close> from \<^verbatim>\<open>queryLimit\<close> on, for a step that
  is neither skipped nor cut off; \<open>acc\<close> holds \<^verbatim>\<open>aggregatedResults\<close> (returned as
  \<^verbatim>\<open>results\<close>), \<^verbatim>\<open>executedQueries\<close> and \<^verbatim>\<open>stepResults\<close>. \<open>sae\<close> is the method
  \<^verbatim>\<open>this.searchAndExtract\<close>.
\<close>

definition runStep ::
  "'w backend \<Rightarrow> SearchEngine \<Rightarrow> int \<Rightarrow> SearchPlanStep \<Rightarrow> RunResult \<Rightarrow> string set \<Rightarrow> 'w
     \<Rightarrow> (js_error + RunResult \<times> string set) \<times> 'w" where
  "runStep sae searchEngine desiredResults step acc seenUrls w =
     (let remainingSlots = desiredResults - int (length (results acc));
          queryLimit = (case limit step of
                          Some l \<Rightarrow> if l \<noteq> 0 then min l remainingSlots else remainingSlots
                        | None \<Rightarrow> remainingSlots)
      in case sae w (query step) searchEngine (Some (max queryLimit 1)) of
           (Inl e, w') \<Rightarrow> (Inl e, w')
         | (Inr stepRawResults, w') \<Rightarrow>
             (case filterNewResults stepRawResults seenUrls of
                (filtered, seen') \<Rightarrow>
                  (let newResults = slice0 filtered remainingSlots
                   in (Inr (\<lparr>results = results acc @ newResults,
                             executedQueries = executedQueries acc @ [query step],
                             stepResults = stepResults acc @ [(step, newResults)]\<rparr>, seen'), w'))))"

fun runLoop ::
  "'w backend \<Rightarrow> SearchEngine \<Rightarrow> int \<Rightarrow> SearchPlanStep list \<Rightarrow> RunResult \<Rightarrow> string set \<Rightarrow> 'w
     \<Rightarrow> (js_error + RunResult) \<times> 'w" where
  "runLoop sae searchEngine desiredResults [] acc seenUrls w = (Inr acc, w)"
| "runLoop sae searchEngine desiredResults (step # rest) acc seenUrls w =
     (if optional step = Some True \<and> int (length (results acc)) \<ge> desiredResults
      then runLoop sae searchEngine desiredResults rest acc seenUrls w
      else if desiredResults - int (length (results acc)) \<le> 0 then (Inr acc, w)
      else (case runStep sae searchEngine desiredResults step acc seenUrls w of
              (Inl e, w') \<Rightarrow> (Inl e, w')
            | (Inr (acc', seen'), w') \<Rightarrow>
                if int (length (results acc')) \<ge> desiredResults then (Inr acc', w')
                else runLoop sae searchEngine desiredResults rest acc' seen' w'))"

definition runSearchPlan ::
  "'w backend \<Rightarrow> SearchPlanStep list \<Rightarrow> SearchEngine \<Rightarrow> int \<Rightarrow> 'w \<Rightarrow> (js_error + RunResult) \<times> 'w" where
  "runSearchPlan sae searchPlan searchEngine desiredResults w =
     runLoop sae searchEngine desiredResults searchPlan
       \<lparr>results = [], executedQueries = [], stepResults = []\<rparr> {} w"

text \<open>
  Three notions used to state properties of a run: the key under which
  \<^verbatim>\<open>_filterNewResults\<close> remembers a result, whether a result has a key at all, and
  two wrappers of a backend: one that removes the results without a key from
  what the backend returns, one that records each query the backend is called
  with.
\<close>

definition trimmedUrl :: "ExtractedContent \<Rightarrow> string option" where
  "trimmedUrl r = map_option trim (url r)"

definition hasUrl :: "ExtractedContent \<Rightarrow> bool" where
  "hasUrl r = (case url r of None \<Rightarrow> False | Some u \<Rightarrow> trim u \<noteq> [])"

definition dropBlank :: "'w backend \<Rightarrow> 'w backend" where
  "dropBlank sae =
     (\<lambda>w q e l. case sae w q e l of
                  (Inr cs, w') \<Rightarrow> (Inr (filter hasUrl cs), w')
                | (Inl err, w') \<Rightarrow> (Inl err, w'))"

definition logged :: "'w backend \<Rightarrow> ('w \<times> string list) backend" where
  "logged sae = (\<lambda>(w, calls) q e l. case sae w q e l of (r, w') \<Rightarrow> (r, (w', calls @ [q])))"

subsection \<open>Building a search plan\<close>

text \<open>
  The word counts are small integers, for which the floating-point quotient
  \<^verbatim>\<open>stopWordsRemoved / originalWordCount\<close> compares with 0.4 and 0.5 as the rational
  quotient does. The source list has one more entry between the ninth and \<open>qui\<close>:
  \<open>ou\<close> followed by the combining accent U+0300, a code unit that no string of the
  model contains, so that no modelled query starts with it.
\<close>

definition questionWords :: "string list" where
  "questionWords =
     [''comment'', ''pourquoi'', ''quel'', ''quelle'', ''quels'', ''quelles'',
      ''o'' @ [CHR 0xF9], ''qui'', ''combien'']"

definition removalRatio :: "TopicStats \<Rightarrow> rat" where
  "removalRatio s =
     (if originalWordCount s > 0 then of_nat (stopWordsRemoved s) / of_nat (originalWordCount s)
      else 0)"

definition startsWithQuestionWord :: "string \<Rightarrow> bool" where
  "startsWithQuestionWord normalized =
     list_ex (\<lambda>word. startsWith (toLowerCase normalized) (word @ '' '')) questionWords"

definition shouldFallbackToOriginal :: "string \<Rightarrow> ExtractedTopics \<Rightarrow> bool" where
  "shouldFallbackToOriginal originalQuery topicAnalysis =
     (let normalized = trim originalQuery
      in if length normalized = 0 then True
         else if length (trim (cleanedQuery topicAnalysis)) = 0 then True
         else if startsWithQuestionWord normalized \<and> removalRatio (stats topicAnalysis) > 4 / 10
         then True
         else if finalWordCount (stats topicAnalysis) \<le> 2
                 \<and> removalRatio (stats topicAnalysis) \<ge> 5 / 10
         then True
         else False)"

definition ceilDiv :: "int \<Rightarrow> int \<Rightarrow> int" where
  \<comment> \<open>\<^verbatim>\<open>Math.ceil(a / b)\<close> for a positive divisor; the double quotient has the
      ceiling of the exact quotient as long as \<open>\<bar>a\<bar> < 2 ^ 52\<close>, which result budgets are\<close>
  "ceilDiv a b = \<lceil>(of_int a :: rat) / of_int b\<rceil>"

definition buildSearchPlan ::
  "string \<Rightarrow> ExtractedTopics \<Rightarrow> string list \<Rightarrow> int \<Rightarrow> int \<Rightarrow> SearchPlanStep list" where
  "buildSearchPlan originalQuery topicAnalysis highRelevanceTopics desiredResults
       maxHighPriorityTopics =
     (let normalizedOriginal = trim originalQuery;
          cleaned = trim (cleanedQuery topicAnalysis);
          fallbackToOriginal = shouldFallbackToOriginal normalizedOriginal topicAnalysis;
          plan =
            (if fallbackToOriginal \<or> length cleaned = 0
             then [\<lparr>query = normalizedOriginal,
                    reason = ''requ'' @ [CHR 0xEA] @ ''te originale conserv'' @ [CHR 0xE9] @ ''e'',
                    optional = None, limit = None\<rparr>]
                  @ (if length cleaned > 0 \<and> cleaned \<noteq> normalizedOriginal
                     then [\<lparr>query = cleaned, reason = ''variante sans stop words'',
                            optional = Some True,
                            limit = Some (max 2 (ceilDiv desiredResults 2))\<rparr>]
                     else [])
             else [\<lparr>query = cleaned,
                    reason = ''requ'' @ [CHR 0xEA] @ ''te optimis'' @ [CHR 0xE9] @ ''e'',
                    optional = None, limit = None\<rparr>]
                  @ (if cleaned \<noteq> normalizedOriginal
                     then [\<lparr>query = normalizedOriginal,
                            reason = ''requ'' @ [CHR 0xEA] @ ''te originale (contexte)'',
                            optional = Some True,
                            limit = Some (max 2 (ceilDiv desiredResults 2))\<rparr>]
                     else []));
          highPriorityCap = max 0 maxHighPriorityTopics
      in if highPriorityCap > 0
         then plan
              @ map (\<lambda>t. \<lparr>query = t, reason = ''sujet prioritaire'', optional = Some True,
                           limit = Some (max 1 (ceilDiv desiredResults 3))\<rparr>)
                  (slice0 (filter (\<lambda>t. length t > 0 \<and> t \<noteq> cleaned \<and> t \<noteq> normalizedOriginal)
                             highRelevanceTopics)
                     highPriorityCap)
         else plan)"

subsection \<open>smartSearch\<close>


text \<open>
  \<^verbatim>\<open>smartSearch\<close>; \<open>topicOptions\<close> is the option object after the spread of the caller's
  options over the defaults above. The object it returns is the tuple
  (\<^verbatim>\<open>results\<close>, \<^verbatim>\<open>topicAnalysis\<close>, \<^verbatim>\<open>topics\<close>, \<^verbatim>\<open>executedQueries\<close>).
\<close>

definition smartSearchPlan ::
  "'w WebSearch \<Rightarrow> string \<Rightarrow> TopicExtractionOptions \<Rightarrow> int option \<Rightarrow> SearchPlanStep list" where
  "smartSearchPlan ws q topicOptions maxResultsOpt =
     (let desiredResults = max 1 (case maxResultsOpt of Some m \<Rightarrow> m | None \<Rightarrow> maxResults (config ws));
          topicAnalysis = extractTopics q topicOptions;
          relevanceAnalysis = analyzeTopicRelevance (topics topicAnalysis);
          highRelevanceTopics = map topic (filter (\<lambda>t. category t = high) relevanceAnalysis);
          highPriorityLimit = min 2 (max 0 (int (length highRelevanceTopics)))
      in buildSearchPlan q topicAnalysis highRelevanceTopics desiredResults highPriorityLimit)"

definition smartSearch ::
  "'w WebSearch \<Rightarrow> 'w \<Rightarrow> string \<Rightarrow> SearchEngine \<Rightarrow> TopicExtractionOptions \<Rightarrow> int option
     \<Rightarrow> (js_error + ExtractedContent list \<times> ExtractedTopics \<times> string list \<times> string list) \<times> 'w" where
  "smartSearch ws w q searchEngine topicOptions maxResultsOpt =
     (case validateQuery q of
        Some e \<Rightarrow> (Inl (rethrow ''Erreur lors de la recherche intelligente: '' e), w)
      | None \<Rightarrow>
          (let desiredResults =
                 max 1 (case maxResultsOpt of Some m \<Rightarrow> m | None \<Rightarrow> maxResults (config ws));
               topicAnalysis = extractTopics q topicOptions;
               searchPlan = smartSearchPlan ws q topicOptions maxResultsOpt
           in case runSearchPlan (searchAndExtract ws) searchPlan searchEngine desiredResults w of
                (Inl e, w') \<Rightarrow> (Inl (rethrow ''Erreur lors de la recherche intelligente: '' e), w')
              | (Inr runResult, w') \<Rightarrow>
                  (Inr (results runResult, topicAnalysis, topics topicAnalysis,
                        executedQueries runResult), w')))"

subsection \<open>Fetching with retries\<close>

text \<open>
  One attempt of \<^verbatim>\<open>fetch\<close> either rejects (network failure, or the abort when the
  timeout fires) or resolves to a response with a status, whose body is then read
  by \<^verbatim>\<open>response.text()\<close>, which may itself reject. \<^verbatim>\<open>response.ok\<close> is true exactly for
  the statuses 200 to 299. The network is a function from the URL and the number
  of the attempt to what that attempt meets.
\<close>

datatype FetchOutcome =
  Rejected js_error
| Response (status: nat) (statusText: string) (body: "js_error + string")

definition responseOk :: "nat \<Rightarrow> bool" where
  "responseOk st = (200 \<le> st \<and> st \<le> 299)"

fun decimal :: "nat \<Rightarrow> string" where
  "decimal n = (if n < 10 then [char_of (48 + n)] else decimal (n div 10) @ [char_of (48 + n mod 10)])"

definition attemptResult :: "FetchOutcome \<Rightarrow> js_error + string" where
  \<comment> \<open>the \<^verbatim>\<open>try\<close> block of one attempt: the text of the body, or what is caught\<close>
  "attemptResult outcome =
     (case outcome of
        Rejected e \<Rightarrow> Inl e
      | Response st txt b \<Rightarrow>
          if \<not> responseOk st then Inl (Error (''HTTP '' @ decimal st @ '': '' @ txt)) else b)"

text \<open>
  The loop of \<^verbatim>\<open>_fetchWithRetry\<close> from attempt \<open>attempt\<close> on. Beside the result it
  returns the delays it has waited for, in order.
\<close>

function fetchLoop ::
  "(string \<Rightarrow> nat \<Rightarrow> FetchOutcome) \<Rightarrow> WebSearchConfig \<Rightarrow> string \<Rightarrow> int \<Rightarrow> js_error option
     \<Rightarrow> int list \<Rightarrow> (js_error + string) \<times> int list" where
  "fetchLoop net cfg u attempt lastError delays =
     (if attempt \<le> retryAttempts cfg
      then (case attemptResult (net u (nat attempt)) of
              Inr text \<Rightarrow> (Inr text, delays)
            | Inl e \<Rightarrow>
                if attempt < retryAttempts cfg
                then fetchLoop net cfg u (attempt + 1) (Some e) (delays @ [retryDelay cfg * attempt])
                else fetchLoop net cfg u (attempt + 1) (Some e) delays)
      else (Inl (case lastError of Some e \<Rightarrow> e | None \<Rightarrow> ThrownUndefined), delays))"
  by pat_completeness auto
termination
  by (relation "measure (\<lambda>(net, cfg, u, attempt, lastError, delays). nat (retryAttempts cfg + 1 - attempt))")
     auto

definition fetchWithRetry ::
  "(string \<Rightarrow> nat \<Rightarrow> FetchOutcome) \<Rightarrow> WebSearchConfig \<Rightarrow> string \<Rightarrow> (js_error + string) \<times> int list" where
  "fetchWithRetry net cfg u = fetchLoop net cfg u 1 None []"

section \<open>A small web for concrete runs\<close>

text \<open>
  A world whose state counts the requests made so far. The search engine knows
  three queries; the host \<open>down.example\<close> never answers; any other page is
  fetched and parsed.
\<close>

definition hit :: "nat \<Rightarrow> string \<Rightarrow> SearchResult" where
  "hit k u = \<lparr>sr_title = ''t'', sr_url = u, snippet = ''s'', rank = k\<rparr>"

definition demoHits :: "string \<Rightarrow> SearchResult list" where
  "demoHits q =
     (if q = ''ciel bleu''
      then [hit 1 ''http://a.example/sky'', hit 2 ''http://b.example/blue'',
            hit 3 ''http://c.example/air'', hit 4 ''http://d.example/sun'']
      else if q = ''pourquoi le ciel est bleu''
      then [hit 1 ''http://b.example/blue'', hit 2 ''http://e.example/why'',
            hit 3 ''http://a.example/sky'', hit 4 ''http://f.example/light'',
            hit 5 ''http://g.example/rayleigh'']
      else if q = ''diffusion''
      then [hit 1 ''http://down.example/x'', hit 2 ''http://h.example/scatter'']
      else [])"

definition demoPage :: "string \<Rightarrow> int \<Rightarrow> ExtractedContent" where
  "demoPage u t =
     \<lparr>url = Some u, title = ''page'', content = ''text'', headings = [], links = [],
      metadata = \<lparr>description = None, pageKeywords = None, author = None, publishDate = None,
                  pageLanguage = None\<rparr>,
      extractedAt = t, success = True, error = None\<rparr>"

definition demoHost :: "string \<Rightarrow> string option" where
  "demoHost u =
     (if startsWith u ''http://'' then Some (takeWhile (\<lambda>c. c \<noteq> CHR ''/'') (drop 7 u)) else None)"

definition demoWeb :: "nat WebSearch" where
  "demoWeb =
     \<lparr>config = defaultConfig,
      performSearch = (\<lambda>w q e. (Inr (demoHits q), Suc w)),
      extractSingleContent =
        (\<lambda>w u. (if demoHost u = Some ''down.example'' then Inl (Error ''timeout'')
                 else Inr (demoPage u (int w)), Suc w)),
      hostnameOf = demoHost,
      now = int\<rparr>"

definition demoStep :: "string \<Rightarrow> bool option \<Rightarrow> int option \<Rightarrow> SearchPlanStep" where
  "demoStep q opt lmt = \<lparr>query = q, reason = ''demo'', optional = opt, limit = lmt\<rparr>"

definition keyed :: "RunResult \<Rightarrow> string set \<Rightarrow> bool" where
  "keyed acc seen \<longleftrightarrow>
     (\<forall>r \<in> set (results acc). hasUrl r \<and> the (trimmedUrl r) \<in> seen)
     \<and> distinct (map trimmedUrl (results acc))"

definition blankWeb :: "nat WebSearch" where
  "blankWeb =
     demoWeb\<lparr>extractSingleContent :=
        (\<lambda>w u. (Inr ((demoPage u (int w))
                       \<lparr>url := (if u = ''http://b.example/blue'' then Some ''  ''
                                else if u = ''http://c.example/air'' then None
                                else Some ('' '' @ u))\<rparr>), Suc w))\<rparr>"

definition budgetPlan :: "SearchPlanStep list" where
  "budgetPlan = [demoStep ''ciel bleu'' None (Some 3),
                 demoStep ''pourquoi le ciel est bleu'' (Some True) (Some 5)]"

definition budgetOut :: RunResult where
  "budgetOut =
     \<lparr>results = [demoPage ''http://a.example/sky'' 1, demoPage ''http://b.example/blue'' 2,
                 demoPage ''http://c.example/air'' 3],
      executedQueries = [''ciel bleu'', ''pourquoi le ciel est bleu''],
      stepResults =
        [(demoStep ''ciel bleu'' None (Some 3),
          [demoPage ''http://a.example/sky'' 1, demoPage ''http://b.example/blue'' 2,
           demoPage ''http://c.example/air'' 3]),
         (demoStep ''pourquoi le ciel est bleu'' (Some True) (Some 5), [])]\<rparr>"

definition dedupPlan :: "SearchPlanStep list" where
  "dedupPlan = [demoStep ''ciel bleu'' None (Some 2),
                demoStep ''pourquoi le ciel est bleu'' (Some True) (Some 3)]"

definition dedupOut :: RunResult where
  "dedupOut =
     \<lparr>results = [demoPage ''http://a.example/sky'' 1, demoPage ''http://b.example/blue'' 2,
                 demoPage ''http://e.example/why'' 5],
      executedQueries = [''ciel bleu'', ''pourquoi le ciel est bleu''],
      stepResults =
        [(demoStep ''ciel bleu'' None (Some 2),
          [demoPage ''http://a.example/sky'' 1, demoPage ''http://b.example/blue'' 2]),
         (demoStep ''pourquoi le ciel est bleu'' (Some True) (Some 3),
          [demoPage ''http://e.example/why'' 5])]\<rparr>"

definition blankOut :: RunResult where
  "blankOut =
     \<lparr>results = [(demoPage ''http://a.example/sky'' 1)\<lparr>url := Some '' http://a.example/sky''\<rparr>],
      executedQueries = [''ciel bleu''],
      stepResults =
        [(demoStep ''ciel bleu'' None None,
          [(demoPage ''http://a.example/sky'' 1)\<lparr>url := Some '' http://a.example/sky''\<rparr>])]\<rparr>"

definition loggedPlan :: "SearchPlanStep list" where
  "loggedPlan = [demoStep ''ciel bleu'' None (Some 3),
                 demoStep ''pourquoi le ciel est bleu'' (Some True) (Some 5),
                 demoStep ''diffusion'' (Some True) None]"

definition loggedOut :: RunResult where
  "loggedOut =
     \<lparr>results = [demoPage ''http://a.example/sky'' 1, demoPage ''http://b.example/blue'' 2,
                 demoPage ''http://c.example/air'' 3,
                 failedContent ''http://down.example/x'' 8 (Error ''timeout'')],
      executedQueries = [''ciel bleu'', ''pourquoi le ciel est bleu'', ''diffusion''],
      stepResults =
        [(demoStep ''ciel bleu'' None (Some 3),
          [demoPage ''http://a.example/sky'' 1, demoPage ''http://b.example/blue'' 2,
           demoPage ''http://c.example/air'' 3]),
         (demoStep ''pourquoi le ciel est bleu'' (Some True) (Some 5), []),
         (demoStep ''diffusion'' (Some True) None,
          [failedContent ''http://down.example/x'' 8 (Error ''timeout'')])]\<rparr>"

definition flakyNet :: "string \<Rightarrow> nat \<Rightarrow> FetchOutcome" where
  \<comment> \<open>every URL answers 500 twice, then 200\<close>
  "flakyNet u k =
     (if k < 3 then Response 500 ''Internal Server Error'' (Inr ''try later'')
      else Response 200 ''OK'' (Inr ''page''))"

definition deadNet :: "string \<Rightarrow> nat \<Rightarrow> FetchOutcome" where
  "deadNet u k = Response 503 ''Service Unavailable'' (Inr ''down'')"




definition plainTopicOptions :: TopicExtractionOptions where
  "plainTopicOptions = defaultTopicOptions\<lparr>preserveCapitalized := False\<rparr>"







section \<open>Properties of topic extraction\<close>

text \<open>
  C6: for every query and every option set, the statistics of the analysis count
  the removed words and the topics that are returned, the latter after the
  \<^verbatim>\<open>maxTopics\<close> cut.
\<close>

theorem extractTopics_stats_consistent:
  "stopWordsRemoved (stats (extractTopics q opts)) = length (removedWords (extractTopics q opts))
   \<and> finalWordCount (stats (extractTopics q opts)) = length (topics (extractTopics q opts))
   \<and> topics (extractTopics q opts)
       = slice0 (snd (foldl (\<lambda>acc word. processWord q opts word acc) ([], []) (originalWords q)))
           (maxTopics opts)"
  by (simp add: extractTopics_def Let_def)

section \<open>Properties of the relevance scorer\<close>

lemma set_insertBy: "set (insertBy cmp x ys) = insert x (set ys)"
  by (induction ys) auto

lemma sorted_insertBy_desc:
  fixes f :: "'a \<Rightarrow> rat"
  assumes "sorted_wrt (\<lambda>a b. f a \<ge> f b) ys"
  shows "sorted_wrt (\<lambda>a b. f a \<ge> f b) (insertBy (\<lambda>a b. f b - f a) x ys)"
  using assms
proof (induction ys)
  case Nil
  then show ?case by simp
next
  case (Cons y ys)
  show ?case
  proof (cases "f y \<le> f x")
    case True
    with Cons.prems show ?thesis by (auto intro: order_trans)
  next
    case False
    with Cons show ?thesis by (auto simp: set_insertBy)
  qed
qed

lemma sorted_sortBy_desc:
  fixes f :: "'a \<Rightarrow> rat"
  shows "sorted_wrt (\<lambda>a b. f a \<ge> f b) (sortBy (\<lambda>a b. f b - f a) xs)"
  unfolding sortBy_def by (induction xs) (simp_all add: sorted_insertBy_desc)

lemma filter_insertBy_key:
  fixes f :: "'a \<Rightarrow> rat"
  shows "filter (\<lambda>e. f e = k) (insertBy (\<lambda>a b. f b - f a) x ys)
         = (if f x = k then x # filter (\<lambda>e. f e = k) ys else filter (\<lambda>e. f e = k) ys)"
  by (induction ys) auto

lemma filter_sortBy_key:
  fixes f :: "'a \<Rightarrow> rat"
  shows "filter (\<lambda>e. f e = k) (sortBy (\<lambda>a b. f b - f a) xs) = filter (\<lambda>e. f e = k) xs"
  unfolding sortBy_def by (induction xs) (simp_all add: filter_insertBy_key)

lemma set_sortBy: "set (sortBy cmp xs) = set xs"
  unfolding sortBy_def by (induction xs) (simp_all add: set_insertBy)

lemma length_insertBy: "length (insertBy cmp x ys) = Suc (length ys)"
  by (induction ys) auto

lemma length_sortBy: "length (sortBy cmp xs) = length xs"
  unfolding sortBy_def by (induction xs) (simp_all add: length_insertBy)

lemma rawScore_lower: "10 \<le> rawScore t"
proof -
  have "0 \<le> min (rat_of_nat (length t) / 10) 1 * 30" by simp
  then show ?thesis unfolding rawScore_def Let_def by auto
qed

lemma scoreTopic_entry:
  "0 \<le> relevanceScore (scoreTopic t) \<and> relevanceScore (scoreTopic t) \<le> 100
   \<and> category (scoreTopic t)
       = (if relevanceScore (scoreTopic t) \<ge> 70 then high
          else if relevanceScore (scoreTopic t) \<ge> 40 then medium else low)"
  using rawScore_lower [of t] by (auto simp: scoreTopic_def Let_def min_def)

text \<open>
  C7: the entries come out in descending order of score; entries of equal score
  keep the order of the topics they come from (for every score \<open>k\<close>, the entries
  with that score are the same sequence before and after the sort); every score
  lies between 0 and 100; and the category is \<open>high\<close> from 70 on, \<open>medium\<close> from 40
  on, else \<open>low\<close>.
\<close>

theorem analyzeTopicRelevance_sorted_stable_bounded:
  "sorted_wrt (\<lambda>a b. relevanceScore a \<ge> relevanceScore b) (analyzeTopicRelevance ts)
   \<and> (\<forall>k. filter (\<lambda>e. relevanceScore e = k) (analyzeTopicRelevance ts)
            = filter (\<lambda>e. relevanceScore e = k) (map scoreTopic ts))
   \<and> length (analyzeTopicRelevance ts) = length ts
   \<and> (\<forall>e \<in> set (analyzeTopicRelevance ts).
         0 \<le> relevanceScore e \<and> relevanceScore e \<le> 100
         \<and> category e = (if relevanceScore e \<ge> 70 then high
                          else if relevanceScore e \<ge> 40 then medium else low))"
  unfolding analyzeTopicRelevance_def
  using scoreTopic_entry
  by (auto simp: sorted_sortBy_desc filter_sortBy_key length_sortBy set_sortBy)

theorem analyzeTopicRelevance_witness:
  "map topic (analyzeTopicRelevance [''ciel'', ''Paris'', ''GPT-4'', ''bleu''])
     = [''GPT-4'', ''Paris'', ''ciel'', ''bleu'']
   \<and> map relevanceScore (analyzeTopicRelevance [''ciel'', ''Paris'', ''GPT-4'', ''bleu''])
     = [100, 50, 22, 22]
   \<and> map category (analyzeTopicRelevance [''ciel'', ''Paris'', ''GPT-4'', ''bleu''])
     = [high, medium, low, low]
   \<and> sorted_wrt (\<lambda>a b. relevanceScore a \<ge> relevanceScore b)
        (analyzeTopicRelevance [''ciel'', ''Paris'', ''GPT-4'', ''bleu''])"
proof -
  have e: "analyzeTopicRelevance [''ciel'', ''Paris'', ''GPT-4'', ''bleu'']
     = [\<lparr>topic = ''GPT-4'', relevanceScore = 100, category = high\<rparr>,
        \<lparr>topic = ''Paris'', relevanceScore = 50, category = medium\<rparr>,
        \<lparr>topic = ''ciel'', relevanceScore = 22, category = low\<rparr>,
        \<lparr>topic = ''bleu'', relevanceScore = 22, category = low\<rparr>]"
    by code_simp
  show ?thesis
    using analyzeTopicRelevance_sorted_stable_bounded [of "[''ciel'', ''Paris'', ''GPT-4'', ''bleu'']"]
    by (simp add: e)
qed

section \<open>Re-extracting topics from the cleaned query\<close>
































lemma plain_second:
  "topics (extractTopics ''ciel est-il bleu'' plainTopicOptions) = [''ciel'', ''est-il'', ''bleu'']"
  by code_simp


section \<open>Properties of the search execution engine\<close>

lemma slice0_take: "0 \<le> e \<Longrightarrow> slice0 xs e = take (nat e) xs"
  by (simp add: slice0_def)

lemma length_slice0: "0 \<le> e \<Longrightarrow> int (length (slice0 xs e)) \<le> e"
  by (simp add: slice0_def)

lemma set_slice0: "set (slice0 xs e) \<subseteq> set xs"
  by (auto simp: slice0_def dest: in_set_takeD)

lemma hasUrl_trimmedUrl: "hasUrl r \<longleftrightarrow> (\<exists>u. trimmedUrl r = Some u \<and> u \<noteq> [])"
  by (auto simp: hasUrl_def trimmedUrl_def split: option.splits)

lemma filterNewResults_props:
  "filterNewResults rs seen = (f, s') \<Longrightarrow>
     (\<forall>r \<in> set f. r \<in> set rs \<and> hasUrl r \<and> the (trimmedUrl r) \<notin> seen \<and> the (trimmedUrl r) \<in> s')
     \<and> distinct (map trimmedUrl f) \<and> seen \<subseteq> s' \<and> length f \<le> length rs"
proof (induction rs arbitrary: seen f s')
  case Nil
  then show ?case by simp
next
  case (Cons r rs)
  show ?case
  proof (cases "hasUrl r \<and> the (trimmedUrl r) \<notin> seen")
    case False
    then have "filterNewResults (r # rs) seen = filterNewResults rs seen"
      by (auto simp: hasUrl_def trimmedUrl_def split: option.splits)
    with Cons.prems have "filterNewResults rs seen = (f, s')" by simp
    from Cons.IH [OF this] show ?thesis by auto
  next
    case True
    then obtain u where u: "trimmedUrl r = Some u" "u \<noteq> []" "u \<notin> seen"
      by (auto simp: hasUrl_trimmedUrl)
    obtain f' s'' where rec: "filterNewResults rs (insert u seen) = (f', s'')"
      by (cases "filterNewResults rs (insert u seen)")
    with u Cons.prems have fs: "f = r # f'" "s' = s''"
      by (auto simp: trimmedUrl_def split: option.splits)
    from Cons.IH [OF rec] have ih:
      "\<forall>x \<in> set f'. x \<in> set rs \<and> hasUrl x \<and> the (trimmedUrl x) \<notin> insert u seen \<and> the (trimmedUrl x) \<in> s''"
      "distinct (map trimmedUrl f')" "insert u seen \<subseteq> s''" "length f' \<le> length rs"
      by auto
    have "trimmedUrl r \<notin> set (map trimmedUrl f')"
    proof
      assume "trimmedUrl r \<in> set (map trimmedUrl f')"
      then obtain x where "x \<in> set f'" "trimmedUrl x = Some u" using u by auto
      with ih(1) show False by auto
    qed
    with ih u True show ?thesis unfolding fs by auto
  qed
qed

lemma runLoop_invariant:
  assumes step: "\<And>step acc seen w acc' seen' w'.
      \<lbrakk>P acc seen w; 0 < desired - int (length (results acc));
       runStep sae eng desired step acc seen w = (Inr (acc', seen'), w')\<rbrakk> \<Longrightarrow> P acc' seen' w'"
    and init: "P acc seen w"
    and run: "runLoop sae eng desired plan acc seen w = (Inr out, w2)"
  shows "\<exists>seenf. P out seenf w2"
  using init run
proof (induction plan arbitrary: acc seen w)
  case Nil
  then show ?case by auto
next
  case (Cons s rest)
  show ?case
  proof (cases "optional s = Some True \<and> int (length (results acc)) \<ge> desired")
    case True
    with Cons.prems(2) have "runLoop sae eng desired rest acc seen w = (Inr out, w2)" by simp
    from Cons.IH [OF Cons.prems(1) this] show ?thesis .
  next
    case skip: False
    show ?thesis
    proof (cases "desired - int (length (results acc)) \<le> 0")
      case True
      with skip Cons.prems show ?thesis by auto
    next
      case False
      obtain r w1 where rs: "runStep sae eng desired s acc seen w = (r, w1)"
        by (cases "runStep sae eng desired s acc seen w")
      show ?thesis
      proof (cases r)
        case (Inl e)
        with skip False rs Cons.prems(2) show ?thesis by simp
      next
        case (Inr p)
        obtain acc' seen' where p: "p = (acc', seen')" by (cases p)
        from step [OF Cons.prems(1) _ rs [unfolded Inr p]] False
        have P': "P acc' seen' w1" by simp
        show ?thesis
        proof (cases "int (length (results acc')) \<ge> desired")
          case True
          with skip False rs Inr p Cons.prems(2) have "out = acc'" "w2 = w1" by simp_all
          with P' show ?thesis by auto
        next
          case nf: False
          with skip False rs Inr p Cons.prems(2)
          have "runLoop sae eng desired rest acc' seen' w1 = (Inr out, w2)" by simp
          from Cons.IH [OF P' this] show ?thesis .
        qed
      qed
    qed
  qed
qed

lemma runStep_Inr:
  assumes "runStep sae eng desired s acc seen w = (Inr (acc', seen'), w')"
    and "0 < desired - int (length (results acc))"
  shows "\<exists>raw f. sae w (query s) eng
             (Some (max (case limit s of Some l \<Rightarrow> if l \<noteq> 0 then min l (desired - int (length (results acc)))
                                         else desired - int (length (results acc))
                         | None \<Rightarrow> desired - int (length (results acc))) 1)) = (Inr raw, w')
         \<and> filterNewResults raw seen = (f, seen')
         \<and> results acc' = results acc @ take (nat (desired - int (length (results acc)))) f
         \<and> executedQueries acc' = executedQueries acc @ [query s]
         \<and> stepResults acc' = stepResults acc @ [(s, take (nat (desired - int (length (results acc)))) f)]"
  using assms
  by (auto simp: runStep_def Let_def slice0_def split: prod.splits sum.splits)

lemma runLoop_budget:
  assumes "int (length (results acc)) \<le> desired"
    and "runLoop sae eng desired plan acc seen w = (Inr out, w2)"
  shows "int (length (results out)) \<le> desired"
proof -
  have "\<exists>seenf. (\<lambda>a (s::string set) (x::'a). int (length (results a)) \<le> desired) out seenf w2"
  proof (rule runLoop_invariant [where P = "\<lambda>a s x. int (length (results a)) \<le> desired", OF _ assms])
    fix step acc seen w acc' seen' w'
    assume pos: "0 < desired - int (length (results acc))"
      and st: "runStep sae eng desired step acc seen w = (Inr (acc', seen'), w')"
    from runStep_Inr [OF st pos] obtain f where
      "results acc' = results acc @ take (nat (desired - int (length (results acc)))) f" by blast
    with pos show "int (length (results acc')) \<le> desired" by simp
  qed
  then show ?thesis by simp
qed

lemma runStep_keyed:
  assumes k: "keyed acc seen"
    and pos: "0 < desired - int (length (results acc))"
    and st: "runStep sae eng desired step acc seen w = (Inr (acc', seen'), w')"
  shows "keyed acc' seen'"
proof -
  from runStep_Inr [OF st pos] obtain raw f where
    f: "filterNewResults raw seen = (f, seen')"
    and r: "results acc' = results acc @ take (nat (desired - int (length (results acc)))) f"
    by blast
  let ?new = "take (nat (desired - int (length (results acc)))) f"
  from filterNewResults_props [OF f] have fp:
    "\<forall>r \<in> set f. hasUrl r \<and> the (trimmedUrl r) \<notin> seen \<and> the (trimmedUrl r) \<in> seen'"
    "distinct (map trimmedUrl f)" "seen \<subseteq> seen'"
    by auto
  have newp: "\<forall>r \<in> set ?new. hasUrl r \<and> the (trimmedUrl r) \<notin> seen \<and> the (trimmedUrl r) \<in> seen'"
    using fp(1) by (auto dest: in_set_takeD)
  have dnew: "distinct (map trimmedUrl ?new)"
    using fp(2) by (simp add: take_map [symmetric] distinct_take)
  have disj: "set (map trimmedUrl (results acc)) \<inter> set (map trimmedUrl ?new) = {}"
  proof (rule ccontr)
    assume "\<not> ?thesis"
    then obtain a b where ab: "a \<in> set (results acc)" "b \<in> set ?new" "trimmedUrl a = trimmedUrl b"
      by auto
    from k ab(1) have "the (trimmedUrl a) \<in> seen" by (simp add: keyed_def)
    moreover from newp ab(2) have "the (trimmedUrl b) \<notin> seen" by simp
    ultimately show False using ab(3) by simp
  qed
  from k have old: "\<forall>r \<in> set (results acc). hasUrl r \<and> the (trimmedUrl r) \<in> seen'"
    using fp(3) by (auto simp: keyed_def)
  from k have dold: "distinct (map trimmedUrl (results acc))" by (simp add: keyed_def)
  show ?thesis
    unfolding keyed_def r using old newp dold dnew disj by auto
qed

lemma runLoop_keyed:
  assumes "keyed acc seen" and "runLoop sae eng desired plan acc seen w = (Inr out, w2)"
  shows "\<exists>seenf. keyed out seenf"
  by (rule runLoop_invariant [where P = "\<lambda>a s x. keyed a s", OF _ assms]) (rule runStep_keyed)

lemma distinct_map_comp: "distinct (map (\<lambda>x. g (f x)) xs) \<Longrightarrow> distinct (map f xs)"
  by (induction xs) auto

lemma keyed_distinct_url: "keyed acc seen \<Longrightarrow> distinct (map url (results acc))"
  unfolding keyed_def trimmedUrl_def by (blast intro: distinct_map_comp)

lemma keyed_init: "keyed \<lparr>results = [], executedQueries = [], stepResults = []\<rparr> {}"
  by (simp add: keyed_def)

lemma runStep_logged:
  "runStep (logged sae) eng desired s acc seen (w, calls)
   = (case runStep sae eng desired s acc seen w of (r, w') \<Rightarrow> (r, (w', calls @ [query s])))"
  by (simp add: runStep_def logged_def Let_def split: prod.splits sum.splits)

lemma runLoop_logged_fst:
  "\<exists>calls'. runLoop (logged sae) eng desired plan acc seen (w, calls)
      = (fst (runLoop sae eng desired plan acc seen w),
         (snd (runLoop sae eng desired plan acc seen w), calls'))"
proof (induction plan arbitrary: acc seen w calls)
  case Nil
  then show ?case by simp
next
  case (Cons s rest)
  obtain r w1 where rs: "runStep sae eng desired s acc seen w = (r, w1)"
    by (cases "runStep sae eng desired s acc seen w")
  show ?case
  proof (cases r)
    case (Inl e)
    with rs Cons.IH show ?thesis by (simp add: runStep_logged)
  next
    case (Inr p)
    obtain acc' seen' where p: "p = (acc', seen')" by (cases p)
    with rs Inr Cons.IH show ?thesis by (simp add: runStep_logged)
  qed
qed

lemma runStep_calls:
  assumes "executedQueries acc = calls \<and> map (\<lambda>p. query (fst p)) (stepResults acc) = calls"
    and pos: "0 < desired - int (length (results acc))"
    and st: "runStep (logged sae) eng desired s acc seen (w, calls) = (Inr (acc', seen'), (w', calls'))"
  shows "executedQueries acc' = calls' \<and> map (\<lambda>p. query (fst p)) (stepResults acc') = calls'"
proof -
  from st have c: "calls' = calls @ [query s]"
    by (auto simp: runStep_logged split: prod.splits)
  from runStep_Inr [OF st pos] assms(1) c show ?thesis by auto
qed

lemma runLoop_calls:
  assumes "executedQueries acc = calls \<and> map (\<lambda>p. query (fst p)) (stepResults acc) = calls"
    and run: "runLoop (logged sae) eng desired plan acc seen (w, calls) = (Inr out, (w2, calls2))"
  shows "executedQueries out = calls2 \<and> map (\<lambda>p. query (fst p)) (stepResults out) = calls2"
proof -
  have "\<exists>seenf. (\<lambda>a (s::string set) x. executedQueries a = snd x
                     \<and> map (\<lambda>p. query (fst p)) (stepResults a) = snd x) out seenf (w2, calls2)"
  proof (rule runLoop_invariant [where P = "\<lambda>a s x. executedQueries a = snd x
                     \<and> map (\<lambda>p. query (fst p)) (stepResults a) = snd x", OF _ _ run])
    show "executedQueries acc = snd (w, calls) \<and> map (\<lambda>p. query (fst p)) (stepResults acc) = snd (w, calls)"
      using assms(1) by simp
  next
    fix step acc seen x acc' seen' x'
    assume a: "executedQueries acc = snd x \<and> map (\<lambda>p. query (fst p)) (stepResults acc) = snd x"
      and pos: "0 < desired - int (length (results acc))"
      and st: "runStep (logged sae) eng desired step acc seen x = (Inr (acc', seen'), x')"
    obtain w c where x: "x = (w, c)" by (cases x)
    obtain w' c' where x': "x' = (w', c')" by (cases x')
    from runStep_calls [OF _ pos st [unfolded x x']] a x x'
    show "executedQueries acc' = snd x' \<and> map (\<lambda>p. query (fst p)) (stepResults acc') = snd x'"
      by simp
  qed
  then show ?thesis by simp
qed

lemma runLoop_subseq:
  assumes "runLoop sae eng desired plan acc seen w = (Inr out, w2)"
  shows "\<exists>zs. executedQueries out = executedQueries acc @ zs \<and> subseq zs (map query plan)"
  using assms
proof (induction plan arbitrary: acc seen w)
  case Nil
  then show ?case by simp
next
  case (Cons s rest)
  show ?case
  proof (cases "optional s = Some True \<and> int (length (results acc)) \<ge> desired")
    case True
    with Cons.prems have "runLoop sae eng desired rest acc seen w = (Inr out, w2)" by simp
    from Cons.IH [OF this] show ?thesis by (auto intro: subseq_Cons')
  next
    case skip: False
    show ?thesis
    proof (cases "desired - int (length (results acc)) \<le> 0")
      case True
      with skip Cons.prems show ?thesis by auto
    next
      case False
      obtain r w1 where rs: "runStep sae eng desired s acc seen w = (r, w1)"
        by (cases "runStep sae eng desired s acc seen w")
      show ?thesis
      proof (cases r)
        case (Inl e)
        with skip False rs Cons.prems show ?thesis by simp
      next
        case (Inr p)
        obtain acc' seen' where p: "p = (acc', seen')" by (cases p)
        from runStep_Inr [OF rs [unfolded Inr p]] False
        have ex: "executedQueries acc' = executedQueries acc @ [query s]" by auto
        show ?thesis
        proof (cases "int (length (results acc')) \<ge> desired")
          case True
          with skip False rs Inr p Cons.prems have "out = acc'" by simp
          with ex show ?thesis by auto
        next
          case nf: False
          with skip False rs Inr p Cons.prems
          have "runLoop sae eng desired rest acc' seen' w1 = (Inr out, w2)" by simp
          from Cons.IH [OF this] ex show ?thesis by auto
        qed
      qed
    qed
  qed
qed

lemma filterNewResults_dropBlank:
  "filterNewResults (filter hasUrl rs) seen = filterNewResults rs seen"
  by (induction rs arbitrary: seen) (auto simp: hasUrl_def split: option.splits prod.splits)

lemma runStep_dropBlank:
  "runStep (dropBlank sae) eng desired s acc seen w = runStep sae eng desired s acc seen w"
  by (auto simp: runStep_def dropBlank_def Let_def filterNewResults_dropBlank
           split: prod.splits sum.splits)

lemma runLoop_dropBlank:
  "runLoop (dropBlank sae) eng desired plan acc seen w = runLoop sae eng desired plan acc seen w"
  by (induction plan arbitrary: acc seen w)
     (simp_all add: runStep_dropBlank split: prod.splits sum.splits)

lemma settleAll_length: "settleAll ws w us = (os, w') \<Longrightarrow> length os = length us"
  by (induction us arbitrary: w os w') (auto split: prod.splits)

lemma extractContents_Inr:
  assumes "extractContents ws w urls = (Inr cs, w')"
  shows "validateUrls ws urls = None
         \<and> (\<exists>os. settleAll ws w urls = (os, w') \<and> cs = map2 (settled ws w') urls os)
         \<and> length cs = length urls"
  using assms
  by (auto simp: extractContents_def split: option.splits prod.splits dest: settleAll_length)

lemma getTopUrls_length:
  assumes "getTopUrls ws w q e (Some l) = (Inr urls, w')" "0 \<le> l"
  shows "int (length urls) \<le> l"
  using assms
  by (auto simp: getTopUrls_def Let_def slice0_def split: option.splits prod.splits sum.splits)

lemma searchAndExtract_length:
  assumes "searchAndExtract ws w q e (Some l) = (Inr cs, w')" "0 \<le> l"
  shows "int (length cs) \<le> l"
proof -
  from assms(1) obtain urls w1 where g: "getTopUrls ws w q e (Some l) = (Inr urls, w1)"
    and x: "extractContents ws w1 urls = (Inr cs, w')"
    by (auto simp: searchAndExtract_def split: prod.splits sum.splits)
  from extractContents_Inr [OF x] getTopUrls_length [OF g assms(2)] show ?thesis by simp
qed

lemma two_step_run:
  assumes l1: "limit s1 = Some 3" and l2: "limit s2 = Some 5"
    and run: "runSearchPlan (searchAndExtract ws) [s1, s2] eng 4 w = (Inr out, w2)"
  shows "\<exists>raw1 w1 r1 raw2 r2.
           searchAndExtract ws w (query s1) eng (Some 3) = (Inr raw1, w1) \<and> length raw1 \<le> 3
           \<and> searchAndExtract ws w1 (query s2) eng (Some (min 5 (4 - int (length r1)))) = (Inr raw2, w2)
           \<and> int (length raw2) \<le> min 5 (4 - int (length r1))
           \<and> stepResults out = [(s1, r1), (s2, r2)] \<and> results out = r1 @ r2
           \<and> length r1 \<le> 3 \<and> int (length r2) \<le> min 5 (4 - int (length r1))
           \<and> length (results out) \<le> 4"
proof -
  let ?sae = "searchAndExtract ws"
  let ?a0 = "\<lparr>results = [], executedQueries = [], stepResults = []\<rparr>"
  from run have run': "runLoop ?sae eng 4 [s1, s2] ?a0 {} w = (Inr out, w2)"
    by (simp add: runSearchPlan_def)
  obtain x w1 where st1: "runStep ?sae eng 4 s1 ?a0 {} w = (x, w1)"
    by (cases "runStep ?sae eng 4 s1 ?a0 {} w")
  show ?thesis
  proof (cases x)
    case (Inl e)
    with st1 run' show ?thesis by simp
  next
    case (Inr p)
    obtain a1 seen1 where p: "p = (a1, seen1)" by (cases p)
    note st1' = st1 [unfolded Inr p]
    have pos0: "0 < 4 - int (length (results ?a0))" by simp
    from runStep_Inr [OF st1' pos0] l1 obtain raw1 f1 where
      c1: "?sae w (query s1) eng (Some 3) = (Inr raw1, w1)"
      and f1: "filterNewResults raw1 {} = (f1, seen1)"
      and r1: "results a1 = take 4 f1"
      and sr1: "stepResults a1 = [(s1, take 4 f1)]"
      by auto
    from searchAndExtract_length [OF c1] have lraw1: "length raw1 \<le> 3" by simp
    from filterNewResults_props [OF f1] lraw1 have lf1: "length f1 \<le> 3" by simp
    then have t1: "take 4 f1 = f1" by simp
    have len1: "length (results a1) \<le> 3" using r1 lf1 by simp
    then have pos1: "0 < 4 - int (length (results a1))" by simp
    from run' st1' len1 have run2: "runLoop ?sae eng 4 [s2] a1 seen1 w1 = (Inr out, w2)"
      by simp
    obtain y w3 where st2: "runStep ?sae eng 4 s2 a1 seen1 w1 = (y, w3)"
      by (cases "runStep ?sae eng 4 s2 a1 seen1 w1")
    show ?thesis
    proof (cases y)
      case (Inl e)
      with st2 run2 len1 show ?thesis by simp
    next
      case y: (Inr p2)
      obtain a2 seen2 where p2: "p2 = (a2, seen2)" by (cases p2)
      note st2' = st2 [unfolded y p2]
      from run2 st2' len1 have fin: "out = a2" "w2 = w3"
        by (simp_all split: if_splits)
      let ?rem = "4 - int (length (results a1))"
      have mx: "max (min 5 ?rem) 1 = min 5 ?rem" using pos1 by simp
      from runStep_Inr [OF st2' pos1] l2 mx obtain raw2 f2 where
        c2: "?sae w1 (query s2) eng (Some (min 5 ?rem)) = (Inr raw2, w3)"
        and f2: "filterNewResults raw2 seen1 = (f2, seen2)"
        and r2: "results a2 = results a1 @ take (nat ?rem) f2"
        and sr2: "stepResults a2 = stepResults a1 @ [(s2, take (nat ?rem) f2)]"
        by auto
      have "0 \<le> min 5 ?rem" using pos1 by simp
      from searchAndExtract_length [OF c2 this] have lraw2: "int (length raw2) \<le> min 5 ?rem" .
      from filterNewResults_props [OF f2] have "length f2 \<le> length raw2" by simp
      with lraw2 have lr2: "int (length (take (nat ?rem) f2)) \<le> min 5 ?rem" by simp
      have tot: "length (results a2) \<le> 4" using r2 len1 by simp
      show ?thesis
        using c1 lraw1 c2 lraw2 sr1 sr2 r1 r2 t1 lf1 lr2 tot fin
        by (intro exI [of _ raw1] exI [of _ w1] exI [of _ f1] exI [of _ raw2]
                  exI [of _ "take (nat ?rem) f2"]) simp
    qed
  qed
qed

text \<open>
  C1: for every plan and every \<open>desiredResults \<ge> 1\<close>, a run that returns has at most
  \<open>desiredResults\<close> results. For two steps with limits 3 and 5 and
  \<open>desiredResults = 4\<close>, the first step asks the backend for 3 and gets at most 3,
  the second asks for \<open>min 5 (4 - accepted)\<close> and gets at most that many, and the
  total is at most 4.
\<close>

theorem runSearchPlan_within_budget:
  "(1 \<le> desiredResults
      \<longrightarrow> runSearchPlan (searchAndExtract ws) searchPlan eng desiredResults w = (Inr out, w')
      \<longrightarrow> int (length (results out)) \<le> desiredResults)
   \<and> (limit s1 = Some 3 \<longrightarrow> limit s2 = Some 5
      \<longrightarrow> runSearchPlan (searchAndExtract ws) [s1, s2] eng 4 w = (Inr out2, w2)
      \<longrightarrow> (\<exists>raw1 w1 r1 raw2 r2.
             searchAndExtract ws w (query s1) eng (Some 3) = (Inr raw1, w1) \<and> length raw1 \<le> 3
             \<and> searchAndExtract ws w1 (query s2) eng (Some (min 5 (4 - int (length r1))))
                 = (Inr raw2, w2)
             \<and> int (length raw2) \<le> min 5 (4 - int (length r1))
             \<and> stepResults out2 = [(s1, r1), (s2, r2)] \<and> results out2 = r1 @ r2
             \<and> length r1 \<le> 3 \<and> int (length r2) \<le> min 5 (4 - int (length r1))
             \<and> length (results out2) \<le> 4))"
proof (intro conjI impI)
  assume d: "1 \<le> desiredResults"
    and run: "runSearchPlan (searchAndExtract ws) searchPlan eng desiredResults w = (Inr out, w')"
  from run have "runLoop (searchAndExtract ws) eng desiredResults searchPlan
                   \<lparr>results = [], executedQueries = [], stepResults = []\<rparr> {} w = (Inr out, w')"
    by (simp add: runSearchPlan_def)
  from runLoop_budget [OF _ this] d show "int (length (results out)) \<le> desiredResults"
    by simp
next
  assume "limit s1 = Some 3" "limit s2 = Some 5"
    "runSearchPlan (searchAndExtract ws) [s1, s2] eng 4 w = (Inr out2, w2)"
  then show "\<exists>raw1 w1 r1 raw2 r2.
             searchAndExtract ws w (query s1) eng (Some 3) = (Inr raw1, w1) \<and> length raw1 \<le> 3
             \<and> searchAndExtract ws w1 (query s2) eng (Some (min 5 (4 - int (length r1))))
                 = (Inr raw2, w2)
             \<and> int (length raw2) \<le> min 5 (4 - int (length r1))
             \<and> stepResults out2 = [(s1, r1), (s2, r2)] \<and> results out2 = r1 @ r2
             \<and> length r1 \<le> 3 \<and> int (length r2) \<le> min 5 (4 - int (length r1))
             \<and> length (results out2) \<le> 4"
    by (rule two_step_run)
qed

lemma demoStep_sel:
  "query (demoStep q opt lmt) = q" "optional (demoStep q opt lmt) = opt"
  "limit (demoStep q opt lmt) = lmt"
  by (simp_all add: demoStep_def)

lemma budget_step1:
  "runStep (searchAndExtract demoWeb) duckduckgo 4
     (demoStep ''ciel bleu'' None (Some 3))
     \<lparr>results = [], executedQueries = [], stepResults = []\<rparr>
     {} 0
   = (Inr (\<lparr>results = [demoPage ''http://a.example/sky'' 1, demoPage ''http://b.example/blue'' 2, demoPage ''http://c.example/air'' 3], executedQueries = [''ciel bleu''], stepResults = [(demoStep ''ciel bleu'' None (Some 3), [demoPage ''http://a.example/sky'' 1, demoPage ''http://b.example/blue'' 2, demoPage ''http://c.example/air'' 3])]\<rparr>,
           {''http://c.example/air'', ''http://b.example/blue'', ''http://a.example/sky''}), 4)"
  by code_simp

lemma budget_step2:
  "runStep (searchAndExtract demoWeb) duckduckgo 4
     (demoStep ''pourquoi le ciel est bleu'' (Some True) (Some 5))
     \<lparr>results = [demoPage ''http://a.example/sky'' 1, demoPage ''http://b.example/blue'' 2, demoPage ''http://c.example/air'' 3], executedQueries = [''ciel bleu''], stepResults = [(demoStep ''ciel bleu'' None (Some 3), [demoPage ''http://a.example/sky'' 1, demoPage ''http://b.example/blue'' 2, demoPage ''http://c.example/air'' 3])]\<rparr>
     {''http://c.example/air'', ''http://b.example/blue'', ''http://a.example/sky''} 4
   = (Inr (\<lparr>results = [demoPage ''http://a.example/sky'' 1, demoPage ''http://b.example/blue'' 2, demoPage ''http://c.example/air'' 3], executedQueries = [''ciel bleu'', ''pourquoi le ciel est bleu''], stepResults = [(demoStep ''ciel bleu'' None (Some 3), [demoPage ''http://a.example/sky'' 1, demoPage ''http://b.example/blue'' 2, demoPage ''http://c.example/air'' 3]), (demoStep ''pourquoi le ciel est bleu'' (Some True) (Some 5), [])]\<rparr>,
           {''http://c.example/air'', ''http://b.example/blue'', ''http://a.example/sky''}), 6)"
  by code_simp

lemma budget_step3:
  "runStep (searchAndExtract demoWeb) duckduckgo 4
     (demoStep ''diffusion'' (Some True) None)
     \<lparr>results = [demoPage ''http://a.example/sky'' 1, demoPage ''http://b.example/blue'' 2, demoPage ''http://c.example/air'' 3], executedQueries = [''ciel bleu'', ''pourquoi le ciel est bleu''], stepResults = [(demoStep ''ciel bleu'' None (Some 3), [demoPage ''http://a.example/sky'' 1, demoPage ''http://b.example/blue'' 2, demoPage ''http://c.example/air'' 3]), (demoStep ''pourquoi le ciel est bleu'' (Some True) (Some 5), [])]\<rparr>
     {''http://c.example/air'', ''http://b.example/blue'', ''http://a.example/sky''} 6
   = (Inr (\<lparr>results = [demoPage ''http://a.example/sky'' 1, demoPage ''http://b.example/blue'' 2, demoPage ''http://c.example/air'' 3, failedContent ''http://down.example/x'' 8 (Error ''timeout'')], executedQueries = [''ciel bleu'', ''pourquoi le ciel est bleu'', ''diffusion''], stepResults = [(demoStep ''ciel bleu'' None (Some 3), [demoPage ''http://a.example/sky'' 1, demoPage ''http://b.example/blue'' 2, demoPage ''http://c.example/air'' 3]), (demoStep ''pourquoi le ciel est bleu'' (Some True) (Some 5), []), (demoStep ''diffusion'' (Some True) None, [failedContent ''http://down.example/x'' 8 (Error ''timeout'')])]\<rparr>,
           {''http://down.example/x'', ''http://c.example/air'', ''http://b.example/blue'', ''http://a.example/sky''}), 8)"
  by code_simp

lemma budget_run: "runSearchPlan (searchAndExtract demoWeb) budgetPlan duckduckgo 4 0 = (Inr budgetOut, 6)"
  by (simp add: runSearchPlan_def budgetPlan_def budgetOut_def demoStep_sel budget_step1 budget_step2)

theorem runSearchPlan_within_budget_witness:
  "runSearchPlan (searchAndExtract demoWeb) budgetPlan duckduckgo 4 0 = (Inr budgetOut, 6)
   \<and> map limit budgetPlan = [Some 3, Some 5]
   \<and> (1::int) \<le> 4 \<and> int (length (results budgetOut)) \<le> 4
   \<and> map (\<lambda>p. length (snd p)) (stepResults budgetOut) = [3, 0]"
  using runSearchPlan_within_budget
          [of 4 demoWeb budgetPlan duckduckgo 0 budgetOut 6
              "demoStep ''ciel bleu'' None (Some 3)"
              "demoStep ''pourquoi le ciel est bleu'' (Some True) (Some 5)" budgetOut 6]
        budget_run
  by (simp add: budgetPlan_def budgetOut_def demoStep_sel)

text \<open>
  C3: whatever the steps return, also when their raw results share URLs, no two
  results of a run have the same URL (nor the same URL after trimming, which is
  the key of the deduplication).
\<close>

theorem runSearchPlan_urls_distinct:
  "runSearchPlan sae searchPlan eng desiredResults w = (Inr out, w')
   \<Longrightarrow> distinct (map trimmedUrl (results out)) \<and> distinct (map url (results out))"
proof -
  assume "runSearchPlan sae searchPlan eng desiredResults w = (Inr out, w')"
  then have "runLoop sae eng desiredResults searchPlan
               \<lparr>results = [], executedQueries = [], stepResults = []\<rparr> {} w = (Inr out, w')"
    by (simp add: runSearchPlan_def)
  from runLoop_keyed [OF keyed_init this] obtain seenf where k: "keyed out seenf" ..
  then show ?thesis using keyed_distinct_url [OF k] by (simp add: keyed_def)
qed

lemma dedup_step1:
  "runStep (searchAndExtract demoWeb) duckduckgo 10
     (demoStep ''ciel bleu'' None (Some 2))
     \<lparr>results = [], executedQueries = [], stepResults = []\<rparr>
     {} 0
   = (Inr (\<lparr>results = [demoPage ''http://a.example/sky'' 1, demoPage ''http://b.example/blue'' 2], executedQueries = [''ciel bleu''], stepResults = [(demoStep ''ciel bleu'' None (Some 2), [demoPage ''http://a.example/sky'' 1, demoPage ''http://b.example/blue'' 2])]\<rparr>,
           {''http://b.example/blue'', ''http://a.example/sky''}), 3)"
  by code_simp

lemma dedup_step2:
  "runStep (searchAndExtract demoWeb) duckduckgo 10
     (demoStep ''pourquoi le ciel est bleu'' (Some True) (Some 3))
     \<lparr>results = [demoPage ''http://a.example/sky'' 1, demoPage ''http://b.example/blue'' 2], executedQueries = [''ciel bleu''], stepResults = [(demoStep ''ciel bleu'' None (Some 2), [demoPage ''http://a.example/sky'' 1, demoPage ''http://b.example/blue'' 2])]\<rparr>
     {''http://b.example/blue'', ''http://a.example/sky''} 3
   = (Inr (\<lparr>results = [demoPage ''http://a.example/sky'' 1, demoPage ''http://b.example/blue'' 2, demoPage ''http://e.example/why'' 5], executedQueries = [''ciel bleu'', ''pourquoi le ciel est bleu''], stepResults = [(demoStep ''ciel bleu'' None (Some 2), [demoPage ''http://a.example/sky'' 1, demoPage ''http://b.example/blue'' 2]), (demoStep ''pourquoi le ciel est bleu'' (Some True) (Some 3), [demoPage ''http://e.example/why'' 5])]\<rparr>,
           {''http://e.example/why'', ''http://b.example/blue'', ''http://a.example/sky''}), 7)"
  by code_simp

lemma dedup_run:
  "runSearchPlan (searchAndExtract demoWeb) dedupPlan duckduckgo 10 0 = (Inr dedupOut, 7)"
  by (simp add: runSearchPlan_def dedupPlan_def dedupOut_def demoStep_sel dedup_step1 dedup_step2)

theorem runSearchPlan_urls_distinct_witness:
  "runSearchPlan (searchAndExtract demoWeb) dedupPlan duckduckgo 10 0 = (Inr dedupOut, 7)
   \<and> map sr_url (take 3 (demoHits ''pourquoi le ciel est bleu''))
       = [''http://b.example/blue'', ''http://e.example/why'', ''http://a.example/sky'']
   \<and> map url (results dedupOut)
       = [Some ''http://a.example/sky'', Some ''http://b.example/blue'', Some ''http://e.example/why'']
   \<and> distinct (map url (results dedupOut))"
  using runSearchPlan_urls_distinct [of "searchAndExtract demoWeb" dedupPlan duckduckgo 10 0 dedupOut 7]
        dedup_run
  by (simp add: dedupOut_def demoPage_def demoHits_def hit_def)

text \<open>
  C10: every result of a run has a URL that is not empty after trimming. Raw
  results without such a URL are dropped by the filter of each step: removing
  them from what the backend returns changes neither the filter's outcome nor
  the run, so they are never appended and take nothing from the budget.
\<close>

theorem runSearchPlan_results_have_url:
  "(runSearchPlan sae searchPlan eng desiredResults w = (Inr out, w')
      \<longrightarrow> (\<forall>r \<in> set (results out). \<exists>u. url r = Some u \<and> trim u \<noteq> []))
   \<and> filterNewResults (filter hasUrl rs) seenUrls = filterNewResults rs seenUrls
   \<and> (\<forall>r \<in> set (fst (filterNewResults rs seenUrls)). hasUrl r)
   \<and> runSearchPlan (dropBlank sae) searchPlan eng desiredResults w
       = runSearchPlan sae searchPlan eng desiredResults w"
proof (intro conjI impI)
  assume "runSearchPlan sae searchPlan eng desiredResults w = (Inr out, w')"
  then have "runLoop sae eng desiredResults searchPlan
               \<lparr>results = [], executedQueries = [], stepResults = []\<rparr> {} w = (Inr out, w')"
    by (simp add: runSearchPlan_def)
  from runLoop_keyed [OF keyed_init this] obtain seenf where "keyed out seenf" ..
  then show "\<forall>r \<in> set (results out). \<exists>u. url r = Some u \<and> trim u \<noteq> []"
    by (auto simp: keyed_def hasUrl_def split: option.splits)
next
  show "filterNewResults (filter hasUrl rs) seenUrls = filterNewResults rs seenUrls"
    by (rule filterNewResults_dropBlank)
next
  show "\<forall>r \<in> set (fst (filterNewResults rs seenUrls)). hasUrl r"
    using filterNewResults_props [of rs seenUrls]
    by (cases "filterNewResults rs seenUrls") auto
next
  show "runSearchPlan (dropBlank sae) searchPlan eng desiredResults w
        = runSearchPlan sae searchPlan eng desiredResults w"
    by (simp add: runSearchPlan_def runLoop_dropBlank)
qed

lemma blank_step1:
  "runStep (searchAndExtract blankWeb) duckduckgo 3
     (demoStep ''ciel bleu'' None None)
     \<lparr>results = [], executedQueries = [], stepResults = []\<rparr>
     {} 0
   = (Inr (\<lparr>results = [(demoPage ''http://a.example/sky'' 1)\<lparr>url := Some '' http://a.example/sky''\<rparr>], executedQueries = [''ciel bleu''], stepResults = [(demoStep ''ciel bleu'' None None, [(demoPage ''http://a.example/sky'' 1)\<lparr>url := Some '' http://a.example/sky''\<rparr>])]\<rparr>,
           {''http://a.example/sky''}), 4)"
  by code_simp

lemma blank_run:
  "runSearchPlan (searchAndExtract blankWeb) [demoStep ''ciel bleu'' None None] duckduckgo 3 0
   = (Inr blankOut, 4)"
  by (simp add: runSearchPlan_def blankOut_def demoStep_sel blank_step1)

lemma blank_raw:
  "map url (projr (fst (searchAndExtract blankWeb 0 ''ciel bleu'' duckduckgo (Some 3))))
   = [Some '' http://a.example/sky'', Some ''  '', None]"
  by code_simp

theorem runSearchPlan_results_have_url_witness:
  "runSearchPlan (searchAndExtract blankWeb) [demoStep ''ciel bleu'' None None] duckduckgo 3 0
     = (Inr blankOut, 4)
   \<and> map url (projr (fst (searchAndExtract blankWeb 0 ''ciel bleu'' duckduckgo (Some 3))))
     = [Some '' http://a.example/sky'', Some ''  '', None]
   \<and> map url (results blankOut) = [Some '' http://a.example/sky'']
   \<and> trim '' http://a.example/sky'' = ''http://a.example/sky''"
proof -
  have t: "trim '' http://a.example/sky'' = ''http://a.example/sky''" by code_simp
  show ?thesis
    using runSearchPlan_results_have_url
            [of "searchAndExtract blankWeb" "[demoStep ''ciel bleu'' None None]" duckduckgo 3 0 blankOut 4]
          blank_run blank_raw t
    by (simp add: blankOut_def demoPage_def)
qed

text \<open>
  C4: an optional step considered when the accepted results already reach
  \<open>desiredResults\<close> is skipped: the loop goes on with the same accumulators, the same
  seen URLs and the same world. With a backend that records the queries it is
  called with, \<^verbatim>\<open>executedQueries\<close> of a run that returns is exactly that record, it
  lists the queries of \<^verbatim>\<open>stepResults\<close> (steps with no new result included), and it
  is a subsequence of the plan's queries, in plan order. Recording does not
  change the run.
\<close>

theorem runSearchPlan_executedQueries:
  "(optional step = Some True \<and> desiredResults \<le> int (length (results acc))
      \<longrightarrow> runLoop sae eng desiredResults (step # rest) acc seenUrls w
          = runLoop sae eng desiredResults rest acc seenUrls w)
   \<and> (runSearchPlan (logged sae) searchPlan eng desiredResults (w, []) = (Inr out, (w', calls))
      \<longrightarrow> executedQueries out = calls
          \<and> map (\<lambda>p. query (fst p)) (stepResults out) = calls
          \<and> subseq calls (map query searchPlan))
   \<and> fst (runSearchPlan (logged sae) searchPlan eng desiredResults (w, []))
       = fst (runSearchPlan sae searchPlan eng desiredResults w)"
proof -
  let ?a0 = "\<lparr>results = [], executedQueries = [], stepResults = []\<rparr>"
  show ?thesis
  proof (intro conjI impI)
  assume "optional step = Some True \<and> desiredResults \<le> int (length (results acc))"
  then show "runLoop sae eng desiredResults (step # rest) acc seenUrls w
             = runLoop sae eng desiredResults rest acc seenUrls w"
    by simp
next
  assume run: "runSearchPlan (logged sae) searchPlan eng desiredResults (w, []) = (Inr out, (w', calls))"
  from run have rl: "runLoop (logged sae) eng desiredResults searchPlan ?a0 {} (w, []) = (Inr out, (w', calls))"
    by (simp add: runSearchPlan_def)
  have init: "executedQueries ?a0 = [] \<and> map (\<lambda>p. query (fst p)) (stepResults ?a0) = []" by simp
  from runLoop_calls [OF init rl]
  show c: "executedQueries out = calls" and "map (\<lambda>p. query (fst p)) (stepResults out) = calls"
    by simp_all
  from runLoop_subseq [OF rl] c show "subseq calls (map query searchPlan)" by simp
next
  show "fst (runSearchPlan (logged sae) searchPlan eng desiredResults (w, []))
        = fst (runSearchPlan sae searchPlan eng desiredResults w)"
  proof -
    from runLoop_logged_fst [of sae eng desiredResults searchPlan ?a0 "{}" w "[]"]
    obtain c where "runLoop (logged sae) eng desiredResults searchPlan ?a0 {} (w, [])
        = (fst (runLoop sae eng desiredResults searchPlan ?a0 {} w),
           (snd (runLoop sae eng desiredResults searchPlan ?a0 {} w), c))"
      by blast
    then show ?thesis by (simp add: runSearchPlan_def)
  qed
  qed
qed

lemma logged_run:
  "runSearchPlan (logged (searchAndExtract demoWeb)) loggedPlan duckduckgo 4 (0, [])
   = (Inr loggedOut, (8, [''ciel bleu'', ''pourquoi le ciel est bleu'', ''diffusion'']))"
  by (simp add: runSearchPlan_def loggedPlan_def loggedOut_def demoStep_sel runStep_logged
                budget_step1 budget_step2 budget_step3)

lemma skipped_run:
  "runSearchPlan (searchAndExtract demoWeb)
     [demoStep ''ciel bleu'' (Some True) (Some 3), demoStep ''diffusion'' (Some True) None] duckduckgo 0 0
   = (Inr \<lparr>results = [], executedQueries = [], stepResults = []\<rparr>, 0)"
  by (simp add: runSearchPlan_def demoStep_sel)

theorem runSearchPlan_executedQueries_witness:
  "runSearchPlan (logged (searchAndExtract demoWeb)) loggedPlan duckduckgo 4 (0, [])
     = (Inr loggedOut, (8, [''ciel bleu'', ''pourquoi le ciel est bleu'', ''diffusion'']))
   \<and> executedQueries loggedOut = [''ciel bleu'', ''pourquoi le ciel est bleu'', ''diffusion'']
   \<and> map (\<lambda>p. length (snd p)) (stepResults loggedOut) = [3, 0, 1]
   \<and> optional (demoStep ''ciel bleu'' (Some True) (Some 3)) = Some True
   \<and> (0::int) \<le> int (length (results \<lparr>results = [], executedQueries = [], stepResults = []\<rparr>))
   \<and> runSearchPlan (searchAndExtract demoWeb)
        [demoStep ''ciel bleu'' (Some True) (Some 3), demoStep ''diffusion'' (Some True) None] duckduckgo 0 0
      = (Inr \<lparr>results = [], executedQueries = [], stepResults = []\<rparr>, 0)"
  using runSearchPlan_executedQueries
          [where step = "demoStep ''ciel bleu'' (Some True) (Some 3)" and desiredResults = 0
             and acc = "\<lparr>results = [], executedQueries = [], stepResults = []\<rparr>"
             and sae = "searchAndExtract demoWeb" and eng = duckduckgo
             and rest = "[demoStep ''diffusion'' (Some True) None]" and seenUrls = "{}" and w = 0]
        runSearchPlan_executedQueries
          [where sae = "searchAndExtract demoWeb" and eng = duckduckgo and desiredResults = 4
             and w = 0 and searchPlan = loggedPlan and out = loggedOut and w' = 8
             and calls = "[''ciel bleu'', ''pourquoi le ciel est bleu'', ''diffusion'']"]
        logged_run skipped_run
  by (simp add: loggedOut_def demoStep_sel)





lemma failing_urls_settle:
  "settleAll demoWeb 1 [''http://down.example/x'', ''http://h.example/scatter''] = ([Inl (Error ''timeout''), Inr (demoPage ''http://h.example/scatter'' 2)], 3)"
  by code_simp

lemma failing_urls_extract:
  "extractContents demoWeb 1 [''http://down.example/x'', ''http://h.example/scatter'']
   = (Inr [failedContent ''http://down.example/x'' 3 (Error ''timeout''), demoPage ''http://h.example/scatter'' 2], 3)"
  by code_simp























section \<open>Properties of the plan builder\<close>














section \<open>Properties of the fetcher\<close>

declare fetchLoop.simps [simp del]

lemma attemptResult_Inr:
  "attemptResult outcome = Inr text
   \<longleftrightarrow> (\<exists>st txt. outcome = Response st txt (Inr text) \<and> responseOk st)"
  by (cases outcome) (auto simp: attemptResult_def)

lemma fetchLoop_all_fail:
  assumes "\<forall>k. attempt \<le> int k \<and> int k \<le> retryAttempts cfg \<longrightarrow> attemptResult (net u k) = Inl (err k)"
    and "1 \<le> attempt"
  shows "fst (fetchLoop net cfg u attempt lastError delays)
         = Inl (if attempt \<le> retryAttempts cfg then err (nat (retryAttempts cfg))
                else (case lastError of Some e \<Rightarrow> e | None \<Rightarrow> ThrownUndefined))"
  using assms
proof (induction net cfg u attempt lastError delays rule: fetchLoop.induct)
  case (1 net cfg u attempt lastError delays)
  show ?case
  proof (cases "attempt \<le> retryAttempts cfg")
    case False
    then show ?thesis by (subst fetchLoop.simps) simp
  next
    case True
    with "1.prems" have here: "attemptResult (net u (nat attempt)) = Inl (err (nat attempt))"
      by simp
    have rest: "\<forall>k. attempt + 1 \<le> int k \<and> int k \<le> retryAttempts cfg
                  \<longrightarrow> attemptResult (net u k) = Inl (err k)"
      using "1.prems"(1) by simp
    show ?thesis
    proof (cases "attempt < retryAttempts cfg")
      case lt: True
      from "1.IH"(1) [OF True here lt rest] "1.prems"(2)
      have "fst (fetchLoop net cfg u (attempt + 1) (Some (err (nat attempt)))
                   (delays @ [retryDelay cfg * attempt]))
            = Inl (err (nat (retryAttempts cfg)))"
        using lt by simp
      with True lt here show ?thesis by (subst fetchLoop.simps) simp
    next
      case ge: False
      with True have eq: "attempt = retryAttempts cfg" by simp
      from "1.IH"(2) [OF True here ge rest] "1.prems"(2)
      have "fst (fetchLoop net cfg u (attempt + 1) (Some (err (nat attempt))) delays)
            = Inl (err (nat attempt))"
        using eq by simp
      with True ge here eq show ?thesis by (subst fetchLoop.simps) simp
    qed
  qed
qed

lemma fetchLoop_success:
  assumes "fst (fetchLoop net cfg u attempt lastError delays) = Inr text" and "1 \<le> attempt"
  shows "\<exists>k. attempt \<le> int k \<and> int k \<le> retryAttempts cfg \<and> attemptResult (net u k) = Inr text
             \<and> (\<forall>j. attempt \<le> int j \<and> j < k \<longrightarrow> (\<exists>e. attemptResult (net u j) = Inl e))"
  using assms
proof (induction net cfg u attempt lastError delays rule: fetchLoop.induct)
  case (1 net cfg u attempt lastError delays)
  show ?case
  proof (cases "attempt \<le> retryAttempts cfg")
    case False
    with "1.prems"(1) show ?thesis by (subst (asm) fetchLoop.simps) simp
  next
    case True
    show ?thesis
    proof (cases "attemptResult (net u (nat attempt))")
      case (Inr t)
      with True "1.prems"(1) have "t = text" by (subst (asm) fetchLoop.simps) simp
      with Inr True "1.prems"(2) show ?thesis
        by (intro exI [of _ "nat attempt"]) auto
    next
      case (Inl e)
      have "\<exists>k. attempt + 1 \<le> int k \<and> int k \<le> retryAttempts cfg
                 \<and> attemptResult (net u k) = Inr text
                 \<and> (\<forall>j. attempt + 1 \<le> int j \<and> j < k \<longrightarrow> (\<exists>e. attemptResult (net u j) = Inl e))"
      proof (cases "attempt < retryAttempts cfg")
        case lt: True
        from "1.prems"(1) True Inl lt
        have "fst (fetchLoop net cfg u (attempt + 1) (Some e) (delays @ [retryDelay cfg * attempt]))
              = Inr text"
          by (subst (asm) fetchLoop.simps) simp
        from "1.IH"(1) [OF True Inl lt this] "1.prems"(2) show ?thesis by simp
      next
        case ge: False
        from "1.prems"(1) True Inl ge
        have "fst (fetchLoop net cfg u (attempt + 1) (Some e) delays) = Inr text"
          by (subst (asm) fetchLoop.simps) simp
        from "1.IH"(2) [OF True Inl ge this] "1.prems"(2) show ?thesis by simp
      qed
      then obtain k where k: "attempt + 1 \<le> int k" "int k \<le> retryAttempts cfg"
        "attemptResult (net u k) = Inr text"
        "\<forall>j. attempt + 1 \<le> int j \<and> j < k \<longrightarrow> (\<exists>e. attemptResult (net u j) = Inl e)"
        by blast
      have "\<forall>j. attempt \<le> int j \<and> j < k \<longrightarrow> (\<exists>e. attemptResult (net u j) = Inl e)"
      proof (intro allI impI)
        fix j assume j: "attempt \<le> int j \<and> j < k"
        show "\<exists>e. attemptResult (net u j) = Inl e"
        proof (cases "int j = attempt")
          case True
          then have "j = nat attempt" by simp
          with Inl show ?thesis by simp
        next
          case False
          with j k(4) show ?thesis by simp
        qed
      qed
      with k show ?thesis by (intro exI [of _ k]) simp
    qed
  qed
qed

lemma fetchLoop_cong:
  assumes "\<forall>k. attempt \<le> int k \<and> int k \<le> retryAttempts cfg \<longrightarrow> net u k = net' u k"
    and "1 \<le> attempt"
  shows "fetchLoop net cfg u attempt lastError delays = fetchLoop net' cfg u attempt lastError delays"
  using assms
proof (induction net cfg u attempt lastError delays rule: fetchLoop.induct)
  case (1 net cfg u attempt lastError delays)
  show ?case
  proof (cases "attempt \<le> retryAttempts cfg")
    case False
    then show ?thesis by (subst fetchLoop.simps [of net cfg u attempt], subst fetchLoop.simps [of net' cfg u attempt]) simp
  next
    case True
    with "1.prems" have same: "net u (nat attempt) = net' u (nat attempt)" by simp
    have rest: "\<forall>k. attempt + 1 \<le> int k \<and> int k \<le> retryAttempts cfg \<longrightarrow> net u k = net' u k"
      using "1.prems"(1) by simp
    show ?thesis
    proof (cases "attemptResult (net u (nat attempt))")
      case (Inr t)
      with True same show ?thesis by (subst fetchLoop.simps [of net cfg u attempt], subst fetchLoop.simps [of net' cfg u attempt]) simp
    next
      case (Inl e)
      show ?thesis
      proof (cases "attempt < retryAttempts cfg")
        case lt: True
        from "1.IH"(1) [OF True Inl lt rest] "1.prems"(2) True Inl lt same
        show ?thesis by (subst fetchLoop.simps [of net cfg u attempt], subst fetchLoop.simps [of net' cfg u attempt]) simp
      next
        case ge: False
        from "1.IH"(2) [OF True Inl ge rest] "1.prems"(2) True Inl ge same
        show ?thesis by (subst fetchLoop.simps [of net cfg u attempt], subst fetchLoop.simps [of net' cfg u attempt]) simp
      qed
    qed
  qed
qed

declare decimal.simps [simp del]

lemma attemptResult_not_ok:
  "\<not> responseOk st \<Longrightarrow> attemptResult (Response st txt b) = Inl (Error (''HTTP '' @ decimal st @ '': '' @ txt))"
  by (simp add: attemptResult_def)

lemma fetch_500_500_200:
  assumes n: "retryAttempts cfg = 3"
    and a1: "net u 1 = Response 500 t1 b1" and a2: "net u 2 = Response 500 t2 b2"
    and a3: "net u 3 = Response 200 t3 (Inr page)"
  shows "fst (fetchWithRetry net cfg u) = Inr page"
proof -
  have r1: "attemptResult (net u (nat 1)) = Inl (Error (''HTTP '' @ decimal 500 @ '': '' @ t1))"
    using a1 by (simp add: attemptResult_not_ok responseOk_def)
  have r2: "attemptResult (net u (nat 2)) = Inl (Error (''HTTP '' @ decimal 500 @ '': '' @ t2))"
    using a2 by (simp add: attemptResult_not_ok responseOk_def)
  have r3: "attemptResult (net u (nat 3)) = Inr page"
    using a3 by (simp add: attemptResult_def responseOk_def)
  have "fetchLoop net cfg u 3 (Some (Error (''HTTP '' @ decimal 500 @ '': '' @ t2)))
          ([] @ [retryDelay cfg * 1] @ [retryDelay cfg * 2])
        = (Inr page, [] @ [retryDelay cfg * 1] @ [retryDelay cfg * 2])"
    using n r3 by (subst fetchLoop.simps) simp
  then have "fetchLoop net cfg u 2 (Some (Error (''HTTP '' @ decimal 500 @ '': '' @ t1)))
          ([] @ [retryDelay cfg * 1])
        = (Inr page, [] @ [retryDelay cfg * 1] @ [retryDelay cfg * 2])"
    using n r2 by (subst fetchLoop.simps) simp
  then have "fetchLoop net cfg u 1 None [] = (Inr page, [] @ [retryDelay cfg * 1] @ [retryDelay cfg * 2])"
    using n r1 by (subst fetchLoop.simps) simp
  then show ?thesis by (simp add: fetchWithRetry_def)
qed

text \<open>
  C9: with three attempts allowed, statuses 500, 500 and 200 give the body of the
  third response. When every attempt up to \<^verbatim>\<open>retryAttempts\<close> fails, the fetch fails
  with the error of the last attempt. A body that is returned is the whole body
  of a response with a status from 200 to 299, met at an attempt not beyond
  \<^verbatim>\<open>retryAttempts\<close>, all earlier attempts having failed. A status outside 200 to 299
  is a failure of the attempt carrying the status, and what the network would
  answer beyond \<^verbatim>\<open>retryAttempts\<close> attempts plays no part.
\<close>

theorem fetchWithRetry_retry_policy:
  "(retryAttempts cfg = 3 \<longrightarrow> net u 1 = Response 500 t1 b1 \<longrightarrow> net u 2 = Response 500 t2 b2
      \<longrightarrow> net u 3 = Response 200 t3 (Inr page)
      \<longrightarrow> fst (fetchWithRetry net cfg u) = Inr page)
   \<and> (1 \<le> retryAttempts cfg
      \<longrightarrow> (\<forall>k. 1 \<le> k \<and> int k \<le> retryAttempts cfg \<longrightarrow> attemptResult (net u k) = Inl (err k))
      \<longrightarrow> fst (fetchWithRetry net cfg u) = Inl (err (nat (retryAttempts cfg))))
   \<and> (fst (fetchWithRetry net cfg u) = Inr pageText
      \<longrightarrow> (\<exists>k st txt. 1 \<le> k \<and> int k \<le> retryAttempts cfg
             \<and> net u k = Response st txt (Inr pageText) \<and> responseOk st
             \<and> (\<forall>j. 1 \<le> j \<and> j < k \<longrightarrow> (\<exists>e. attemptResult (net u j) = Inl e))))
   \<and> (\<not> responseOk s
      \<longrightarrow> attemptResult (Response s txt' b) = Inl (Error (''HTTP '' @ decimal s @ '': '' @ txt')))
   \<and> ((\<forall>k. 1 \<le> k \<and> int k \<le> retryAttempts cfg \<longrightarrow> net u k = net' u k)
      \<longrightarrow> fetchWithRetry net cfg u = fetchWithRetry net' cfg u)"
proof (intro conjI impI)
  assume "retryAttempts cfg = 3" "net u 1 = Response 500 t1 b1" "net u 2 = Response 500 t2 b2"
    "net u 3 = Response 200 t3 (Inr page)"
  then show "fst (fetchWithRetry net cfg u) = Inr page" by (rule fetch_500_500_200)
next
  assume n: "1 \<le> retryAttempts cfg"
    and f: "\<forall>k. 1 \<le> k \<and> int k \<le> retryAttempts cfg \<longrightarrow> attemptResult (net u k) = Inl (err k)"
  then have "\<forall>k. 1 \<le> int k \<and> int k \<le> retryAttempts cfg \<longrightarrow> attemptResult (net u k) = Inl (err k)"
    by simp
  from fetchLoop_all_fail [where net = net and u = u and cfg = cfg and err = err and attempt = 1
                             and lastError = None and delays = "[]"] this n
  show "fst (fetchWithRetry net cfg u) = Inl (err (nat (retryAttempts cfg)))"
    by (simp add: fetchWithRetry_def)
next
  assume "fst (fetchWithRetry net cfg u) = Inr pageText"
  then have "fst (fetchLoop net cfg u 1 None []) = Inr pageText" by (simp add: fetchWithRetry_def)
  from fetchLoop_success [OF this] obtain k where
    k: "1 \<le> int k" "int k \<le> retryAttempts cfg" "attemptResult (net u k) = Inr pageText"
       "\<forall>j. 1 \<le> int j \<and> j < k \<longrightarrow> (\<exists>e. attemptResult (net u j) = Inl e)"
    by auto
  from k(3) obtain st stx where "net u k = Response st stx (Inr pageText)" "responseOk st"
    by (auto simp: attemptResult_Inr)
  with k show "\<exists>k st txt. 1 \<le> k \<and> int k \<le> retryAttempts cfg
             \<and> net u k = Response st txt (Inr pageText) \<and> responseOk st
             \<and> (\<forall>j. 1 \<le> j \<and> j < k \<longrightarrow> (\<exists>e. attemptResult (net u j) = Inl e))"
    by (intro exI [of _ k] exI [of _ st] exI [of _ stx]) simp
next
  assume "\<not> responseOk s"
  then show "attemptResult (Response s txt' b) = Inl (Error (''HTTP '' @ decimal s @ '': '' @ txt'))"
    by (rule attemptResult_not_ok)
next
  assume "\<forall>k. 1 \<le> k \<and> int k \<le> retryAttempts cfg \<longrightarrow> net u k = net' u k"
  then have "\<forall>k. 1 \<le> int k \<and> int k \<le> retryAttempts cfg \<longrightarrow> net u k = net' u k" by simp
  from fetchLoop_cong [where net = net and net' = net' and u = u and cfg = cfg and attempt = 1
                         and lastError = None and delays = "[]"] this
  show "fetchWithRetry net cfg u = fetchWithRetry net' cfg u"
    by (simp add: fetchWithRetry_def)
qed

lemma flaky_fetch: "fetchWithRetry flakyNet defaultConfig ''http://a.example/sky'' = (Inr ''page'', [1000, 2000])"
  by code_simp

lemma dead_fetch:
  "fetchWithRetry deadNet defaultConfig ''http://down.example/x''
   = (Inl (Error ''HTTP 503: Service Unavailable''), [1000, 2000])"
  by code_simp

lemma decimal_503: "decimal 503 = ''503''"
  by code_simp

lemma dead_attempts:
  "attemptResult (deadNet u k) = Inl (Error ''HTTP 503: Service Unavailable'')"
  by (simp add: deadNet_def attemptResult_def responseOk_def decimal_503)

theorem fetchWithRetry_retry_policy_witness:
  "retryAttempts defaultConfig = 3
   \<and> map (flakyNet ''http://a.example/sky'') [1, 2, 3]
       = [Response 500 ''Internal Server Error'' (Inr ''try later''),
          Response 500 ''Internal Server Error'' (Inr ''try later''),
          Response 200 ''OK'' (Inr ''page'')]
   \<and> fetchWithRetry flakyNet defaultConfig ''http://a.example/sky'' = (Inr ''page'', [1000, 2000])
   \<and> fetchWithRetry deadNet defaultConfig ''http://down.example/x''
       = (Inl (Error ''HTTP 503: Service Unavailable''), [1000, 2000])"
proof -
  note inst = fetchWithRetry_retry_policy
    [where cfg = defaultConfig and net = flakyNet and u = "''http://a.example/sky''"
       and ?t1.0 = "''Internal Server Error''" and ?b1.0 = "Inr ''try later''"
       and ?t2.0 = "''Internal Server Error''" and ?b2.0 = "Inr ''try later''"
       and ?t3.0 = "''OK''" and page = "''page''" and pageText = "''page''"
       and s = 500 and txt' = "''Internal Server Error''" and b = "Inr ''try later''"
       and net' = flakyNet and err = "\<lambda>k. Error ''HTTP 500: Internal Server Error''"]
  have c: "retryAttempts defaultConfig = 3" by (simp add: defaultConfig_def)
  have n1: "flakyNet ''http://a.example/sky'' 1 = Response 500 ''Internal Server Error'' (Inr ''try later'')"
    and n2: "flakyNet ''http://a.example/sky'' 2 = Response 500 ''Internal Server Error'' (Inr ''try later'')"
    and n3: "flakyNet ''http://a.example/sky'' 3 = Response 200 ''OK'' (Inr ''page'')"
    by (simp_all add: flakyNet_def)
  from inst have "retryAttempts defaultConfig = 3
      \<longrightarrow> flakyNet ''http://a.example/sky'' 1 = Response 500 ''Internal Server Error'' (Inr ''try later'')
      \<longrightarrow> flakyNet ''http://a.example/sky'' 2 = Response 500 ''Internal Server Error'' (Inr ''try later'')
      \<longrightarrow> flakyNet ''http://a.example/sky'' 3 = Response 200 ''OK'' (Inr ''page'')
      \<longrightarrow> fst (fetchWithRetry flakyNet defaultConfig ''http://a.example/sky'') = Inr ''page''"
    by (elim conjE)
  with c n1 n2 n3 have ok: "fst (fetchWithRetry flakyNet defaultConfig ''http://a.example/sky'') = Inr ''page''"
    by blast
  note inst2 = fetchWithRetry_retry_policy
    [where cfg = defaultConfig and net = deadNet and u = "''http://down.example/x''"
       and ?t1.0 = "''Service Unavailable''" and ?b1.0 = "Inr ''down''"
       and ?t2.0 = "''Service Unavailable''" and ?b2.0 = "Inr ''down''"
       and ?t3.0 = "''OK''" and page = "''page''" and pageText = "''page''"
       and s = 503 and txt' = "''Service Unavailable''" and b = "Inr ''down''"
       and net' = deadNet and err = "\<lambda>k. Error ''HTTP 503: Service Unavailable''"]
  from inst2 have "1 \<le> retryAttempts defaultConfig
      \<longrightarrow> (\<forall>k. 1 \<le> k \<and> int k \<le> retryAttempts defaultConfig
             \<longrightarrow> attemptResult (deadNet ''http://down.example/x'' k)
                 = Inl (Error ''HTTP 503: Service Unavailable''))
      \<longrightarrow> fst (fetchWithRetry deadNet defaultConfig ''http://down.example/x'')
          = Inl (Error ''HTTP 503: Service Unavailable'')"
    by (elim conjE)
  with c dead_attempts
  have bad: "fst (fetchWithRetry deadNet defaultConfig ''http://down.example/x'')
          = Inl (Error ''HTTP 503: Service Unavailable'')"
    by simp
  from ok bad show ?thesis using c n1 n2 n3 flaky_fetch dead_fetch by simp
qed

end
